theory Spec2Isabelle
  imports Main "HOL-Library.Word"
begin

section \<open>Values of the Go program\<close>

text \<open>
  A non-nil Go \<open>error\<close> is a value carrying its message; a nil error is \<open>None\<close> of
  \<open>error option\<close>. A runtime panic is kept apart from a returned error: a function that
  may panic has an \<open>outcome\<close>.
\<close>

datatype error = Error string

datatype panic = IndexOutOfRange | NilPointerDereference | PanicError error

datatype 'a outcome = Returns 'a | Panics panic

type_synonym uint64 = "64 word"
type_synonym int64 = "64 word"
type_synonym bytes = "8 word list"

text \<open>
  Times are whole clock units (\<open>time.Time\<close> and \<open>time.Duration\<close> count nanoseconds);
  the deny-service threshold is expressed in the same unit.
\<close>

type_synonym time = int

text \<open>
  The fields of \<open>tmtypes.Validator\<close> and of the signed header that the executor reads.
  A validator sequence is a slice of pointers, \<open>[]*tmtypes.Validator\<close>: an entry is
  \<open>Some\<close> validator or the nil pointer \<open>None\<close>, which the decoded reply of a node can
  contain.
\<close>

record Validator =
  Address :: bytes
  VotingPower :: int64
  RelayerBlsKey :: bytes

record SignedHeader =
  Header :: bytes
  Commit :: bytes

section \<open>The world outside the executor\<close>

text \<open>
  A remote node answers requests; what it answers is not under the program's control.
  A node is the number of requests it has served and, for each kind of request, the answer
  it gives to its \<open>k\<close>-th request. An answer is either the error of the call (the client
  library then returns a nil result) or the result (with a nil error).
\<close>

record node =
  served :: nat
  StatusResp :: "nat \<Rightarrow> error + int64"
  ValidatorsResp :: "nat \<Rightarrow> int64 option \<Rightarrow> error + Validator option list"
  CommitResp :: "nat \<Rightarrow> int64 \<Rightarrow> error + SignedHeader"

text \<open>The calls of \<open>logging.Logger\<close> made by the executor, one constructor per call site.\<close>

datatype log_entry =
    Info_monitor_start
  | Info_retry_failed nat
  | Error_msg string
  | Error_get_height error
  | Error_update_validators error

text \<open>
  The world: the nodes by address, the wall clock (the \<open>k\<close>-th reading of \<open>time.Now\<close>),
  the addresses that cannot be dialled, the log sink and the alert sink (Telegram).
\<close>

record world =
  nodes :: "string \<Rightarrow> node"
  clock_reads :: nat
  clock :: "nat \<Rightarrow> time"
  grpc_dial_err :: "string \<Rightarrow> error option"
  rpc_new_err :: "string \<Rightarrow> error option"
  logged :: "log_entry list"
  alerts :: "string list"

definition Logger :: "log_entry \<Rightarrow> world \<Rightarrow> world" where
  "Logger entry w = w\<lparr>logged := logged w @ [entry]\<rparr>"

definition time_Now :: "world \<Rightarrow> time \<times> world" where
  "time_Now w = (clock w (clock_reads w), w\<lparr>clock_reads := Suc (clock_reads w)\<rparr>)"

definition time_Since :: "time \<Rightarrow> world \<Rightarrow> time \<times> world" where
  "time_Since t w = (case time_Now w of (now, w') \<Rightarrow> (now - t, w'))"

text \<open>A request to the node at an address: the node answers and has served one more.\<close>

definition request :: "string \<Rightarrow> world \<Rightarrow> world" where
  "request client w =
     w\<lparr>nodes := (nodes w)(client := (nodes w client)\<lparr>served := Suc (served (nodes w client))\<rparr>)\<rparr>"

definition Status :: "string \<Rightarrow> world \<Rightarrow> (error + int64) \<times> world" where
  "Status client w =
     (StatusResp (nodes w client) (served (nodes w client)), request client w)"

definition Validators ::
  "string \<Rightarrow> int64 option \<Rightarrow> world \<Rightarrow> (error + Validator option list) \<times> world" where
  "Validators client height w =
     (ValidatorsResp (nodes w client) (served (nodes w client)) height, request client w)"

definition Commit_at :: "string \<Rightarrow> int64 \<Rightarrow> world \<Rightarrow> (error + SignedHeader) \<times> world" where
  "Commit_at client height w =
     (CommitResp (nodes w client) (served (nodes w client)) height, request client w)"

section \<open>Constants declared outside the executor file\<close>

text \<open>
  \<open>common.RtyAttem\<close> (the attempt count given to the retry library),
  \<open>FallBehindThreshold\<close> and \<open>DataSeedDenyServiceThreshold\<close> are declared in other files
  of the repository; they are parameters.
\<close>

record constants =
  RtyAttem :: nat
  FallBehindThreshold :: uint64
  DataSeedDenyServiceThreshold :: time

section \<open>The retry wrapper\<close>

text \<open>
  Modelled from the spec: \<open>retry.Do\<close> of the external retry library, with the options
  \<open>common.RtyAttem\<close>, \<open>common.RtyDelay\<close> and \<open>common.RtyErr\<close>, none of which is in
  \<open>executor.go\<close>. The spec (section 4.2): execute the operation up to a fixed maximum
  attempt count; on each failed attempt invoke the callback with the attempt number;
  return the last error if all attempts fail, otherwise the first successful result.
  The operation and the callback act on a state \<open>'s\<close> (the variables the closure captures
  and the world); the delay between attempts is time passing in the world's clock.
\<close>

fun retry_loop ::
  "nat \<Rightarrow> nat \<Rightarrow> ('s \<Rightarrow> error option \<times> 's) \<Rightarrow> (nat \<Rightarrow> error \<Rightarrow> 's \<Rightarrow> 's) \<Rightarrow>
   error option \<Rightarrow> 's \<Rightarrow> error option \<times> 's" where
  "retry_loop 0 n retryableFunc onRetry lastErr s = (lastErr, s)"
| "retry_loop (Suc left) n retryableFunc onRetry lastErr s =
     (case retryableFunc s of
        (None, s') \<Rightarrow> (None, s')
      | (Some err, s') \<Rightarrow>
          retry_loop left (Suc n) retryableFunc onRetry (Some err) (onRetry n err s'))"

definition retry_Do ::
  "nat \<Rightarrow> ('s \<Rightarrow> error option \<times> 's) \<Rightarrow> (nat \<Rightarrow> error \<Rightarrow> 's \<Rightarrow> 's) \<Rightarrow> 's \<Rightarrow> error option \<times> 's" where
  "retry_Do attempts retryableFunc onRetry s = retry_loop attempts 0 retryableFunc onRetry None s"

section \<open>Height queries\<close>

text \<open>
  \<open>getLatestBlockHeight\<close> returns the pair \<open>(0, err)\<close> on an error and the height,
  converted from \<open>int64\<close> to \<open>uint64\<close> (the same 64 bits), with a nil error otherwise.
\<close>

definition getLatestBlockHeight :: "string \<Rightarrow> world \<Rightarrow> (uint64 \<times> error option) \<times> world" where
  "getLatestBlockHeight client w =
     (case Status client w of
        (Inl err, w') \<Rightarrow> ((0, Some err), w')
      | (Inr LatestBlockHeight, w') \<Rightarrow> ((LatestBlockHeight, None), w'))"

text \<open>
  The closure given to \<open>retry.Do\<close> assigns the captured result variable \<open>latestHeight\<close> on
  every attempt; the \<open>return\<close> statement reads that variable once \<open>retry.Do\<close> has returned
  (the Go compiler evaluates the call before it reads the variable).
\<close>

definition latestHeight_attempt :: "string \<Rightarrow> uint64 \<times> world \<Rightarrow> error option \<times> (uint64 \<times> world)" where
  "latestHeight_attempt client s =
     (case s of
        (latestHeight, w) \<Rightarrow>
          (case getLatestBlockHeight client w of ((h, err), w') \<Rightarrow> (err, (h, w'))))"

definition latestHeight_onRetry :: "nat \<Rightarrow> error \<Rightarrow> uint64 \<times> world \<Rightarrow> uint64 \<times> world" where
  "latestHeight_onRetry n err s =
     (case s of (latestHeight, w) \<Rightarrow> (latestHeight, Logger (Info_retry_failed (n + 1)) w))"

definition getLatestBlockHeightWithRetry ::
  "constants \<Rightarrow> string \<Rightarrow> world \<Rightarrow> (uint64 \<times> error option) \<times> world" where
  "getLatestBlockHeightWithRetry k client w =
     (case retry_Do (RtyAttem k) (latestHeight_attempt client) latestHeight_onRetry (0, w) of
        (err, (latestHeight, w')) \<Rightarrow> ((latestHeight, err), w'))"

section \<open>The executor\<close>

text \<open>
  An \<open>ExecutorClient\<close> holds the RPC client of one node, identified here by the address it
  was created for, and the health metadata. The transaction and account clients, and the
  configuration and the codec held by the executor, are not read by the operations below
  and are left out. The read-write lock of the executor orders concurrent goroutines;
  the operations below are taken one at a time. The pool is a slice of pointers to
  clients allocated one by one at construction, so no two entries alias and a write
  through an entry is an update of the list at that position.
\<close>

record ExecutorClient =
  rpcClient :: string
  Provider :: string
  Height :: uint64
  UpdatedAt :: time

record Executor =
  clientIdx :: int
  greenfieldClients :: "ExecutorClient list"
  privateKey :: bytes
  address :: string
  validators :: "Validator option list"

record GreenfieldConfig =
  KeyType :: string
  AWSSecretName :: string
  AWSRegion :: string
  PrivateKey :: string
  RPCAddrs :: "string list"
  GRPCAddrs :: "string list"

subsection \<open>Construction\<close>

text \<open>
  The key-handling functions called by \<open>getGreenfieldPrivateKey\<close> are declared outside
  \<open>executor.go\<close>; they are parameters.
\<close>

record keystore =
  KeyTypeAWSPrivateKey :: string
  GetSecret :: "string \<Rightarrow> string \<Rightarrow> error + string"
  Unmarshal_AwsPrivateKey :: "string \<Rightarrow> error + string"
  HexToEthSecp256k1PrivKey :: "string \<Rightarrow> error + bytes"
  Address_of :: "bytes \<Rightarrow> string"

definition grpcConn :: "string \<Rightarrow> world \<Rightarrow> unit outcome" where
  "grpcConn addr w =
     (case grpc_dial_err w addr of Some err \<Rightarrow> Panics (PanicError err) | None \<Rightarrow> Returns ())"

definition NewRpcClient :: "string \<Rightarrow> world \<Rightarrow> string outcome" where
  "NewRpcClient addr w =
     (case rpc_new_err w addr of Some err \<Rightarrow> Panics (PanicError err) | None \<Rightarrow> Returns addr)"

definition getGreenfieldPrivateKey :: "keystore \<Rightarrow> GreenfieldConfig \<Rightarrow> bytes outcome" where
  "getGreenfieldPrivateKey ks cfg =
     (case (if KeyType cfg = KeyTypeAWSPrivateKey ks then
              (case GetSecret ks (AWSSecretName cfg) (AWSRegion cfg) of
                 Inl err \<Rightarrow> Panics (PanicError err)
               | Inr result \<Rightarrow>
                   (case Unmarshal_AwsPrivateKey ks result of
                      Inl err \<Rightarrow> Panics (PanicError err)
                    | Inr key \<Rightarrow> Returns key))
            else Returns (PrivateKey cfg)) of
        Panics p \<Rightarrow> Panics p
      | Returns privateKey' \<Rightarrow>
          (case HexToEthSecp256k1PrivKey ks privateKey' of
             Inl err \<Rightarrow> Panics (PanicError err)
           | Inr privKey \<Rightarrow> Returns privKey))"

text \<open>
  The loop of \<open>initGreenfieldClients\<close> runs over the RPC addresses and reads the gRPC
  address at the same index, which is out of range when the gRPC list is the shorter one.
\<close>

fun initGreenfieldClients ::
  "string list \<Rightarrow> string list \<Rightarrow> ExecutorClient list \<Rightarrow> world \<Rightarrow> ExecutorClient list outcome \<times> world" where
  "initGreenfieldClients [] grpcAddrs clients w = (Returns clients, w)"
| "initGreenfieldClients (rpcAddr # rpcAddrs) [] clients w = (Panics IndexOutOfRange, w)"
| "initGreenfieldClients (rpcAddr # rpcAddrs) (grpcAddr # grpcAddrs) clients w =
     (case grpcConn grpcAddr w of
        Panics p \<Rightarrow> (Panics p, w)
      | Returns conn \<Rightarrow>
          (case NewRpcClient rpcAddr w of
             Panics p \<Rightarrow> (Panics p, w)
           | Returns client \<Rightarrow>
               (case time_Now w of
                  (now, w') \<Rightarrow>
                    initGreenfieldClients rpcAddrs grpcAddrs
                      (clients @
                         [\<lparr>rpcClient = client, Provider = rpcAddr, Height = 0, UpdatedAt = now\<rparr>])
                      w')))"

definition NewGreenfieldExecutor ::
  "keystore \<Rightarrow> GreenfieldConfig \<Rightarrow> world \<Rightarrow> Executor outcome \<times> world" where
  "NewGreenfieldExecutor ks cfg w =
     (case getGreenfieldPrivateKey ks cfg of
        Panics p \<Rightarrow> (Panics p, w)
      | Returns privKey \<Rightarrow>
          (case initGreenfieldClients (RPCAddrs cfg) (GRPCAddrs cfg) [] w of
             (Panics p, w') \<Rightarrow> (Panics p, w')
           | (Returns clients, w') \<Rightarrow>
               (Returns \<lparr>clientIdx = 0, greenfieldClients = clients, privateKey = privKey,
                         address = Address_of ks privKey, validators = []\<rparr>, w')))"

definition getRpcClient :: "Executor \<Rightarrow> string outcome" where
  "getRpcClient e =
     (if 0 \<le> clientIdx e \<and> clientIdx e < int (length (greenfieldClients e))
      then Returns (rpcClient (greenfieldClients e ! nat (clientIdx e)))
      else Panics IndexOutOfRange)"

subsection \<open>The health monitor loop\<close>

text \<open>One iteration of the loop over the clients (lines 192 to 206 of the executor).\<close>

definition UpdateClientLoop_poll :: "constants \<Rightarrow> ExecutorClient \<Rightarrow> world \<Rightarrow> ExecutorClient \<times> world" where
  "UpdateClientLoop_poll k greenfieldClient w =
     (case time_Since (UpdatedAt greenfieldClient) w of
        (since, w1) \<Rightarrow>
          (let w2 = (if since > DataSeedDenyServiceThreshold k
                     then Logger (Error_msg (''data seed '' @ Provider greenfieldClient @
                                             '' is not accessable'')) w1
                     else w1)
           in case getLatestBlockHeightWithRetry k (rpcClient greenfieldClient) w2 of
                ((height, Some err), w3) \<Rightarrow> (greenfieldClient, Logger (Error_get_height err) w3)
              | ((height, None), w3) \<Rightarrow>
                  (case time_Now w3 of
                     (now, w4) \<Rightarrow> (greenfieldClient\<lparr>Height := height, UpdatedAt := now\<rparr>, w4))))"

fun UpdateClientLoop_collect ::
  "constants \<Rightarrow> ExecutorClient list \<Rightarrow> world \<Rightarrow> ExecutorClient list \<times> world" where
  "UpdateClientLoop_collect k [] w = ([], w)"
| "UpdateClientLoop_collect k (greenfieldClient # rest) w =
     (case UpdateClientLoop_poll k greenfieldClient w of
        (c', w') \<Rightarrow>
          (case UpdateClientLoop_collect k rest w' of (rest', w'') \<Rightarrow> (c' # rest', w'')))"

text \<open>
  The search for the highest client (lines 207 to 214): the list is the part of the pool
  from position \<open>idx\<close> on.
\<close>

fun highest_loop :: "ExecutorClient list \<Rightarrow> int \<Rightarrow> uint64 \<Rightarrow> int \<Rightarrow> uint64 \<times> int" where
  "highest_loop [] idx highestHeight highestIdx = (highestHeight, highestIdx)"
| "highest_loop (c # rest) idx highestHeight highestIdx =
     (if Height c > highestHeight then highest_loop rest (idx + 1) (Height c) idx
      else highest_loop rest (idx + 1) highestHeight highestIdx)"

definition highest :: "ExecutorClient list \<Rightarrow> uint64 \<times> int" where
  "highest clients = highest_loop clients 0 0 0"

text \<open>The switch (lines 215 to 220); the addition is that of \<open>uint64\<close>.\<close>

definition UpdateClientLoop_decide :: "constants \<Rightarrow> Executor \<Rightarrow> Executor outcome" where
  "UpdateClientLoop_decide k e =
     (case highest (greenfieldClients e) of
        (highestHeight, highestIdx) \<Rightarrow>
          (if 0 \<le> clientIdx e \<and> clientIdx e < int (length (greenfieldClients e)) then
             (if Height (greenfieldClients e ! nat (clientIdx e)) + FallBehindThreshold k < highestHeight
              then Returns (e\<lparr>clientIdx := highestIdx\<rparr>)
              else Returns e)
           else Panics IndexOutOfRange))"

definition UpdateClientLoop_tick :: "constants \<Rightarrow> Executor \<Rightarrow> world \<Rightarrow> Executor outcome \<times> world" where
  "UpdateClientLoop_tick k e w =
     (case UpdateClientLoop_collect k (greenfieldClients e) (Logger Info_monitor_start w) of
        (clients, w') \<Rightarrow> (UpdateClientLoop_decide k (e\<lparr>greenfieldClients := clients\<rparr>), w'))"

text \<open>
  The world in which the loop over the clients reaches the client at position \<open>i\<close>: the
  tick has logged its start and polled the clients before it.
\<close>

definition world_before :: "constants \<Rightarrow> ExecutorClient list \<Rightarrow> world \<Rightarrow> nat \<Rightarrow> world" where
  "world_before k clients w i =
     snd (UpdateClientLoop_collect k (take i clients) (Logger Info_monitor_start w))"

text \<open>
  The loop never returns; its first \<open>n\<close> ticks are the prefix of its run that is observed
  here. A panic ends the run.
\<close>

fun UpdateClientLoop :: "nat \<Rightarrow> constants \<Rightarrow> Executor \<Rightarrow> world \<Rightarrow> Executor outcome \<times> world" where
  "UpdateClientLoop 0 k e w = (Returns e, w)"
| "UpdateClientLoop (Suc n) k e w =
     (case UpdateClientLoop_tick k e w of
        (Panics p, w') \<Rightarrow> (Panics p, w')
      | (Returns e', w') \<Rightarrow> UpdateClientLoop n k e' w')"

subsection \<open>The validator cache\<close>

text \<open>
  The methods below have the executor as pointer receiver; they return the executor as
  they leave it, next to their result.
\<close>

definition queryLatestValidators ::
  "Executor \<Rightarrow> world \<Rightarrow> (error + Validator option list) outcome \<times> Executor \<times> world" where
  "queryLatestValidators e w =
     (case getRpcClient e of
        Panics p \<Rightarrow> (Panics p, e, w)
      | Returns client \<Rightarrow>
          (case Validators client None w of
             (Inl err, w') \<Rightarrow> (Returns (Inl err), e, w')
           | (Inr vals, w') \<Rightarrow> (Returns (Inr vals), e, w')))"

definition QueryCachedLatestValidators ::
  "Executor \<Rightarrow> world \<Rightarrow> (error + Validator option list) outcome \<times> Executor \<times> world" where
  "QueryCachedLatestValidators e w =
     (if length (validators e) \<noteq> 0 then (Returns (Inr (validators e)), e, w)
      else (case queryLatestValidators e w of
              (Panics p, e', w') \<Rightarrow> (Panics p, e', w')
            | (Returns (Inl err), e', w') \<Rightarrow> (Returns (Inl err), e', w')
            | (Returns (Inr vals), e', w') \<Rightarrow> (Returns (Inr vals), e', w')))"

text \<open>One tick of \<open>UpdateCachedLatestValidatorsLoop\<close>.\<close>

definition UpdateCachedLatestValidatorsLoop_tick ::
  "Executor \<Rightarrow> world \<Rightarrow> unit outcome \<times> Executor \<times> world" where
  "UpdateCachedLatestValidatorsLoop_tick e w =
     (case queryLatestValidators e w of
        (Panics p, e', w') \<Rightarrow> (Panics p, e', w')
      | (Returns (Inl err), e', w') \<Rightarrow> (Returns (), e', Logger (Error_update_validators err) w')
      | (Returns (Inr vals), e', w') \<Rightarrow> (Returns (), e'\<lparr>validators := vals\<rparr>, w'))"

text \<open>
  \<open>hex.EncodeToString\<close> of the Go standard library: two lower-case digits per byte, the
  high nibble first.
\<close>

definition hextable :: string where
  "hextable = ''0123456789abcdef''"

definition hex_EncodeToString :: "bytes \<Rightarrow> string" where
  "hex_EncodeToString src =
     concat (map (\<lambda>v. [hextable ! unat (drop_bit 4 v), hextable ! unat (and v 0x0f)]) src)"

text \<open>
  The loop over the validators reads the field \<open>RelayerBlsKey\<close> through each entry, which
  panics on a nil entry.
\<close>

fun GetValidatorsBlsPublicKey_loop ::
  "Validator option list \<Rightarrow> string list \<Rightarrow> string list outcome" where
  "GetValidatorsBlsPublicKey_loop [] keys = Returns keys"
| "GetValidatorsBlsPublicKey_loop (None # rest) keys = Panics NilPointerDereference"
| "GetValidatorsBlsPublicKey_loop (Some v # rest) keys =
     GetValidatorsBlsPublicKey_loop rest (keys @ [hex_EncodeToString (RelayerBlsKey v)])"

definition GetValidatorsBlsPublicKey ::
  "Executor \<Rightarrow> world \<Rightarrow> (error + string list) outcome \<times> Executor \<times> world" where
  "GetValidatorsBlsPublicKey e w =
     (case QueryCachedLatestValidators e w of
        (Panics p, e', w') \<Rightarrow> (Panics p, e', w')
      | (Returns (Inl err), e', w') \<Rightarrow> (Returns (Inl err), e', w')
      | (Returns (Inr vals), e', w') \<Rightarrow>
          (case GetValidatorsBlsPublicKey_loop vals [] of
             Panics p \<Rightarrow> (Panics p, e', w')
           | Returns keys \<Rightarrow> (Returns (Inr keys), e', w')))"

subsection \<open>The light block builder\<close>

text \<open>
  The functions of the consensus library that build and encode a light block are not
  part of the repository; they are parameters. \<open>NewValidatorSet\<close> panics on a validator
  list it rejects.
\<close>

record ('vs, 'pb) tmtypes =
  NewValidatorSet :: "Validator option list \<Rightarrow> 'vs outcome"
  LightBlock_ToProto :: "SignedHeader \<Rightarrow> 'vs \<Rightarrow> error + 'pb"
  Marshal :: "'pb \<Rightarrow> error + bytes"

text \<open>
  The error of the validator query is overwritten by the error of the commit query before
  it is read: after a failed validator query the variable holding the result is a nil
  pointer, and only the commit's error is checked before that pointer is dereferenced.
\<close>

definition QueryTendermintLightBlock ::
  "('vs, 'pb) tmtypes \<Rightarrow> Executor \<Rightarrow> world \<Rightarrow> int64 \<Rightarrow> (error + bytes) outcome \<times> Executor \<times> world" where
  "QueryTendermintLightBlock tm e w height =
     (case getRpcClient e of
        Panics p \<Rightarrow> (Panics p, e, w)
      | Returns client \<Rightarrow>
          (case Validators client (Some height) w of
             (r1, w1) \<Rightarrow>
               (let validators' = (case r1 of Inl err \<Rightarrow> None | Inr vals \<Rightarrow> Some vals)
                in case getRpcClient e of
                     Panics p \<Rightarrow> (Panics p, e, w1)
                   | Returns client' \<Rightarrow>
                       (case Commit_at client' height w1 of
                          (Inl err, w2) \<Rightarrow> (Returns (Inl err), e, w2)
                        | (Inr commit, w2) \<Rightarrow>
                            (case validators' of
                               None \<Rightarrow> (Panics NilPointerDereference, e, w2)
                             | Some vals \<Rightarrow>
                                 (case NewValidatorSet tm vals of
                                    Panics p \<Rightarrow> (Panics p, e, w2)
                                  | Returns validatorSet \<Rightarrow>
                                      (case LightBlock_ToProto tm commit validatorSet of
                                         Inl err \<Rightarrow> (Returns (Inl err), e, w2)
                                       | Inr protoBlock \<Rightarrow>
                                           (Returns (Marshal tm protoBlock), e, w2))))))))"

section \<open>Example states\<close>

text \<open>Concrete constants, nodes and worlds on which the theorems below are run.\<close>

definition example_constants :: constants where
  "example_constants = \<lparr>RtyAttem = 5, FallBehindThreshold = 5, DataSeedDenyServiceThreshold = 60\<rparr>"

text \<open>A node that answers its status requests from a list and times out afterwards.\<close>

definition scripted_node :: "(error + int64) list \<Rightarrow> node" where
  "scripted_node answers =
     \<lparr>served = 0,
      StatusResp = (\<lambda>k. if k < length answers then answers ! k else Inl (Error ''timeout'')),
      ValidatorsResp = (\<lambda>k height. Inl (Error ''validators unavailable'')),
      CommitResp = (\<lambda>k height. Inl (Error ''commit unavailable''))\<rparr>"

definition example_world :: "(string \<Rightarrow> node) \<Rightarrow> world" where
  "example_world ns =
     \<lparr>nodes = ns, clock_reads = 0, clock = (\<lambda>k. 1000 + int k),
      grpc_dial_err = (\<lambda>addr. None), rpc_new_err = (\<lambda>addr. None), logged = [], alerts = []\<rparr>"

definition flaky_world :: world where
  "flaky_world =
     example_world (\<lambda>addr. if addr = ''seed-a''
                           then scripted_node [Inl (Error ''refused''), Inl (Error ''refused''), Inr 200]
                           else scripted_node [])"

definition example_client :: "string \<Rightarrow> uint64 \<Rightarrow> time \<Rightarrow> ExecutorClient" where
  "example_client addr h t = \<lparr>rpcClient = addr, Provider = addr, Height = h, UpdatedAt = t\<rparr>"

definition example_executor :: "ExecutorClient list \<Rightarrow> Validator option list \<Rightarrow> Executor" where
  "example_executor clients vals =
     \<lparr>clientIdx = 0, greenfieldClients = clients, privateKey = [], address = [],
      validators = vals\<rparr>"

text \<open>A node that has the commit of every height and fails every validator query.\<close>

definition commit_only_node :: node where
  "commit_only_node =
     \<lparr>served = 0,
      StatusResp = (\<lambda>k. Inr 100),
      ValidatorsResp = (\<lambda>k height. Inl (Error ''validators unavailable'')),
      CommitResp = (\<lambda>k height. Inr \<lparr>Header = [1], Commit = [2]\<rparr>)\<rparr>"

text \<open>A node that answers every validator query with the same two validators.\<close>

definition example_validators :: "Validator option list" where
  "example_validators =
     [Some \<lparr>Address = [1], VotingPower = 10, RelayerBlsKey = [0x8a, 0x0f]\<rparr>,
      Some \<lparr>Address = [2], VotingPower = 10, RelayerBlsKey = [0x00, 0xff, 0x10]\<rparr>]"

definition validator_node :: node where
  "validator_node =
     \<lparr>served = 0,
      StatusResp = (\<lambda>k. Inr 100),
      ValidatorsResp = (\<lambda>k height. Inr example_validators),
      CommitResp = (\<lambda>k height. Inl (Error ''commit unavailable''))\<rparr>"

text \<open>A node whose validator reply has a nil second entry.\<close>

definition nil_entry_node :: node where
  "nil_entry_node =
     \<lparr>served = 0,
      StatusResp = (\<lambda>k. Inr 100),
      ValidatorsResp =
        (\<lambda>k height. Inr [Some \<lparr>Address = [1], VotingPower = 10, RelayerBlsKey = [0x8a, 0x0f]\<rparr>,
                         None]),
      CommitResp = (\<lambda>k height. Inl (Error ''commit unavailable''))\<rparr>"

text \<open>
  A pool of two clients: the first node is at height 100, the second refuses one request
  and is then at height 106.
\<close>

definition monitor_world :: world where
  "monitor_world =
     example_world (\<lambda>addr. if addr = ''seed-a'' then scripted_node [Inr 100]
                           else scripted_node [Inl (Error ''refused''), Inr 106])"

definition monitor_pool :: Executor where
  "monitor_pool =
     example_executor [example_client ''seed-a'' 0 1000, example_client ''seed-b'' 0 1000] []"

text \<open>A client last updated at time 900, checked at time 1000 with a threshold of 60.\<close>

definition stale_pool :: Executor where
  "stale_pool = example_executor [example_client ''seed-a'' 100 900] []"

text \<open>A configuration with no address, one with two, and a key store that accepts any key.\<close>

definition example_keystore :: keystore where
  "example_keystore =
     \<lparr>KeyTypeAWSPrivateKey = ''aws_private_key'',
      GetSecret = (\<lambda>name region. Inl (Error ''no secret'')),
      Unmarshal_AwsPrivateKey = (\<lambda>result. Inl (Error ''no json'')),
      HexToEthSecp256k1PrivKey = (\<lambda>hex. Inr []),
      Address_of = (\<lambda>key. [])\<rparr>"

definition example_config :: "string list \<Rightarrow> GreenfieldConfig" where
  "example_config addrs =
     \<lparr>KeyType = ''local_private_key'', AWSSecretName = [], AWSRegion = [], PrivateKey = ''00'',
      RPCAddrs = addrs, GRPCAddrs = addrs\<rparr>"

text \<open>
  Two nodes that report the heights \<open>-3\<close> and \<open>-1\<close> as \<open>int64\<close>, which are
  \<open>2^64 - 3\<close> and \<open>2^64 - 1\<close> as \<open>uint64\<close>.
\<close>

definition wrap_world :: world where
  "wrap_world =
     example_world (\<lambda>addr. if addr = ''seed-a'' then scripted_node [Inr 18446744073709551613]
                           else scripted_node [Inr 18446744073709551615])"


section \<open>Facts about the world\<close>

lemma Logger_simps [simp]:
  "nodes (Logger x w) = nodes w" "logged (Logger x w) = logged w @ [x]"
  "alerts (Logger x w) = alerts w" "clock (Logger x w) = clock w"
  "clock_reads (Logger x w) = clock_reads w"
  by (simp_all add: Logger_def)

lemma request_simps [simp]:
  "served (nodes (request c w) c) = Suc (served (nodes w c))"
  "StatusResp (nodes (request c w) c') = StatusResp (nodes w c')"
  "ValidatorsResp (nodes (request c w) c') = ValidatorsResp (nodes w c')"
  "CommitResp (nodes (request c w) c') = CommitResp (nodes w c')"
  "c' \<noteq> c \<Longrightarrow> nodes (request c w) c' = nodes w c'"
  "logged (request c w) = logged w" "alerts (request c w) = alerts w"
  "clock (request c w) = clock w" "clock_reads (request c w) = clock_reads w"
  by (simp_all add: request_def)

section \<open>The retry wrapper on the height query\<close>

lemma attempt_fail:
  "StatusResp (nodes w client) (served (nodes w client)) = Inl err \<Longrightarrow>
   latestHeight_attempt client (lh, w) = (Some err, (0, request client w))"
  by (simp add: latestHeight_attempt_def getLatestBlockHeight_def Status_def)

lemma attempt_ok:
  "StatusResp (nodes w client) (served (nodes w client)) = Inr h \<Longrightarrow>
   latestHeight_attempt client (lh, w) = (None, (h, request client w))"
  by (simp add: latestHeight_attempt_def getLatestBlockHeight_def Status_def)

lemma retry_log_shift:
  "map (\<lambda>j. Info_retry_failed (n + j + 1)) [0..<Suc m]
     = Info_retry_failed (n + 1) # map (\<lambda>j. Info_retry_failed (Suc n + j + 1)) [0..<m]"
  by (simp add: upt_rec [of 0] map_Suc_upt [symmetric] del: upt_Suc)

text \<open>Every attempt fails: the loop makes all its attempts and ends with the last error.\<close>

lemma retry_loop_all_fail:
  "0 < m \<Longrightarrow> \<forall>j<m. StatusResp (nodes w client) (served (nodes w client) + j) = Inl (errs j) \<Longrightarrow>
   \<exists>w'. retry_loop m n (latestHeight_attempt client) latestHeight_onRetry lastErr (lh, w)
        = (Some (errs (m - 1)), (0, w'))
      \<and> served (nodes w' client) = served (nodes w client) + m
      \<and> logged w' = logged w @ map (\<lambda>j. Info_retry_failed (n + j + 1)) [0..<m]"
proof (induction m arbitrary: n lastErr lh w errs)
  case 0 then show ?case by simp
next
  case (Suc m)
  let ?s = "served (nodes w client)"
  from Suc.prems have e0: "StatusResp (nodes w client) ?s = Inl (errs 0)"
    by (metis add.right_neutral zero_less_Suc)
  let ?w1 = "Logger (Info_retry_failed (n + 1)) (request client w)"
  have step: "retry_loop (Suc m) n (latestHeight_attempt client) latestHeight_onRetry lastErr (lh, w)
      = retry_loop m (Suc n) (latestHeight_attempt client) latestHeight_onRetry (Some (errs 0)) (0, ?w1)"
    by (simp add: attempt_fail [OF e0] latestHeight_onRetry_def)
  show ?case
  proof (cases m)
    case 0
    then show ?thesis using step e0 by simp
  next
    case (Suc m')
    have "\<forall>j<m. StatusResp (nodes ?w1 client) (served (nodes ?w1 client) + j) = Inl (errs (Suc j))"
      using Suc.prems(2) by auto
    from Suc.IH [OF _ this, of "Suc n" "Some (errs 0)" 0] Suc
    obtain w' where a: "retry_loop m (Suc n) (latestHeight_attempt client) latestHeight_onRetry (Some (errs 0)) (0, ?w1)
        = (Some (errs (Suc (m - 1))), (0, w'))"
      and b: "served (nodes w' client) = served (nodes ?w1 client) + m"
      and c: "logged w' = logged ?w1 @ map (\<lambda>j. Info_retry_failed (Suc n + j + 1)) [0..<m]"
      by auto
    show ?thesis using step a b c Suc retry_log_shift [of n m] by simp
  qed
qed

text \<open>\<open>p\<close> failures, then a success within the budget: the loop stops at the success.\<close>

lemma retry_loop_success:
  "p < m \<Longrightarrow> \<forall>j<p. isl (StatusResp (nodes w client) (served (nodes w client) + j)) \<Longrightarrow>
   StatusResp (nodes w client) (served (nodes w client) + p) = Inr h \<Longrightarrow>
   \<exists>w'. retry_loop m n (latestHeight_attempt client) latestHeight_onRetry lastErr (lh, w)
        = (None, (h, w'))
      \<and> served (nodes w' client) = served (nodes w client) + p + 1
      \<and> logged w' = logged w @ map (\<lambda>j. Info_retry_failed (n + j + 1)) [0..<p]"
proof (induction p arbitrary: m n lastErr lh w)
  case 0
  then obtain m' where m: "m = Suc m'" by (cases m) auto
  from 0 have "StatusResp (nodes w client) (served (nodes w client)) = Inr h" by simp
  then show ?case unfolding m by (simp add: attempt_ok)
next
  case (Suc p)
  then obtain m' where m: "m = Suc m'" and pm: "p < m'" by (cases m) auto
  from Suc.prems(2) obtain err where e0: "StatusResp (nodes w client) (served (nodes w client)) = Inl err"
    by (metis add.right_neutral isl_def zero_less_Suc)
  let ?w1 = "Logger (Info_retry_failed (n + 1)) (request client w)"
  have step: "retry_loop m n (latestHeight_attempt client) latestHeight_onRetry lastErr (lh, w)
      = retry_loop m' (Suc n) (latestHeight_attempt client) latestHeight_onRetry (Some err) (0, ?w1)"
    unfolding m by (simp add: attempt_fail [OF e0] latestHeight_onRetry_def)
  have f: "\<forall>j<p. isl (StatusResp (nodes ?w1 client) (served (nodes ?w1 client) + j))"
    using Suc.prems(2) by auto
  have g: "StatusResp (nodes ?w1 client) (served (nodes ?w1 client) + p) = Inr h"
    using Suc.prems(3) by simp
  from Suc.IH [OF pm f g, of "Suc n" "Some err" 0]
  obtain w' where a: "retry_loop m' (Suc n) (latestHeight_attempt client) latestHeight_onRetry (Some err) (0, ?w1)
        = (None, (h, w'))"
      and b: "served (nodes w' client) = served (nodes ?w1 client) + p + 1"
      and c: "logged w' = logged ?w1 @ map (\<lambda>j. Info_retry_failed (Suc n + j + 1)) [0..<p]"
    by auto
  show ?case using step a b c retry_log_shift [of n p] by simp
qed

text \<open>
  Claim C6. An operation that fails on its first \<open>N - 1\<close> attempts and succeeds on attempt
  \<open>N\<close>, with \<open>N\<close> at most the configured maximum, makes the wrapper return the success
  value after exactly \<open>N\<close> requests, and the retry callback logs exactly \<open>N - 1\<close> times
  (attempts \<open>1\<close> to \<open>N - 1\<close>). An operation that fails on every attempt makes the wrapper
  return the error of the last attempt after exactly the configured maximum of requests.
\<close>

theorem getLatestBlockHeightWithRetry_attempts:
  "(0 < N \<and> N \<le> RtyAttem k
      \<and> (\<forall>j<N - 1. isl (StatusResp (nodes w client) (served (nodes w client) + j)))
      \<and> StatusResp (nodes w client) (served (nodes w client) + (N - 1)) = Inr h
    \<longrightarrow> (case getLatestBlockHeightWithRetry k client w of
           ((latestHeight, err), w') \<Rightarrow>
             latestHeight = h \<and> err = None
             \<and> served (nodes w' client) = served (nodes w client) + N
             \<and> logged w' = logged w @ map (\<lambda>j. Info_retry_failed (j + 1)) [0..<N - 1]))
   \<and> (0 < RtyAttem k
      \<and> (\<forall>j<RtyAttem k. StatusResp (nodes w client) (served (nodes w client) + j) = Inl (errs j))
    \<longrightarrow> (case getLatestBlockHeightWithRetry k client w of
           ((latestHeight, err), w') \<Rightarrow>
             latestHeight = 0 \<and> err = Some (errs (RtyAttem k - 1))
             \<and> served (nodes w' client) = served (nodes w client) + RtyAttem k))"
proof (intro conjI impI)
  assume a: "0 < N \<and> N \<le> RtyAttem k
      \<and> (\<forall>j<N - 1. isl (StatusResp (nodes w client) (served (nodes w client) + j)))
      \<and> StatusResp (nodes w client) (served (nodes w client) + (N - 1)) = Inr h"
  then have "N - 1 < RtyAttem k" by auto
  from retry_loop_success [OF this, of w client h 0 None 0] a
  show "case getLatestBlockHeightWithRetry k client w of
           ((latestHeight, err), w') \<Rightarrow>
             latestHeight = h \<and> err = None
             \<and> served (nodes w' client) = served (nodes w client) + N
             \<and> logged w' = logged w @ map (\<lambda>j. Info_retry_failed (j + 1)) [0..<N - 1]"
    by (auto simp: getLatestBlockHeightWithRetry_def retry_Do_def)
next
  assume a: "0 < RtyAttem k
      \<and> (\<forall>j<RtyAttem k. StatusResp (nodes w client) (served (nodes w client) + j) = Inl (errs j))"
  from retry_loop_all_fail [of "RtyAttem k" w client errs 0 None 0] a
  show "case getLatestBlockHeightWithRetry k client w of
           ((latestHeight, err), w') \<Rightarrow>
             latestHeight = 0 \<and> err = Some (errs (RtyAttem k - 1))
             \<and> served (nodes w' client) = served (nodes w client) + RtyAttem k"
    by (auto simp: getLatestBlockHeightWithRetry_def retry_Do_def)
qed

theorem getLatestBlockHeightWithRetry_attempts_witness:
  "(3::nat) \<le> RtyAttem example_constants
   \<and> isl (StatusResp (nodes flaky_world ''seed-a'') 0)
   \<and> isl (StatusResp (nodes flaky_world ''seed-a'') 1)
   \<and> StatusResp (nodes flaky_world ''seed-a'') 2 = Inr 200
   \<and> fst (getLatestBlockHeightWithRetry example_constants ''seed-a'' flaky_world) = (200, None)
   \<and> logged (snd (getLatestBlockHeightWithRetry example_constants ''seed-a'' flaky_world))
       = [Info_retry_failed 1, Info_retry_failed 2]
   \<and> StatusResp (nodes flaky_world ''seed-b'') 4 = Inl (Error ''timeout'')
   \<and> fst (getLatestBlockHeightWithRetry example_constants ''seed-b'' flaky_world)
       = (0, Some (Error ''timeout''))
   \<and> served (nodes (snd (getLatestBlockHeightWithRetry example_constants ''seed-b'' flaky_world)) ''seed-b'') = 5"
proof -
  have s: "served (nodes flaky_world ''seed-a'') = 0" "served (nodes flaky_world ''seed-b'') = 0"
    "logged flaky_world = []" "RtyAttem example_constants = 5"
    by (simp_all add: example_constants_def flaky_world_def example_world_def scripted_node_def)
  have h1: "(0::nat) < 3 \<and> 3 \<le> RtyAttem example_constants
      \<and> (\<forall>j<3 - 1. isl (StatusResp (nodes flaky_world ''seed-a'') (served (nodes flaky_world ''seed-a'') + j)))
      \<and> StatusResp (nodes flaky_world ''seed-a'') (served (nodes flaky_world ''seed-a'') + (3 - 1)) = Inr 200"
    by (auto simp: example_constants_def flaky_world_def example_world_def scripted_node_def less_Suc_eq numeral_2_eq_2)
  have h2: "0 < RtyAttem example_constants
      \<and> (\<forall>j<RtyAttem example_constants.
            StatusResp (nodes flaky_world ''seed-b'') (served (nodes flaky_world ''seed-b'') + j)
              = Inl (Error ''timeout''))"
    by (simp add: example_constants_def flaky_world_def example_world_def scripted_node_def)
  have u: "map (\<lambda>j. Info_retry_failed (j + 1)) [0..<3 - 1] = [Info_retry_failed 1, Info_retry_failed 2]"
    by (simp add: numeral_2_eq_2 upt_rec)
  from getLatestBlockHeightWithRetry_attempts
         [of 3 example_constants flaky_world "''seed-a''" 200 "\<lambda>j. Error ''timeout''",
          THEN conjunct1, THEN mp, OF h1]
  have r1: "case getLatestBlockHeightWithRetry example_constants ''seed-a'' flaky_world of
           ((latestHeight, err), w') \<Rightarrow>
             latestHeight = 200 \<and> err = None
             \<and> served (nodes w' ''seed-a'') = served (nodes flaky_world ''seed-a'') + 3
             \<and> logged w' = logged flaky_world @ map (\<lambda>j. Info_retry_failed (j + 1)) [0..<3 - 1]" .
  from getLatestBlockHeightWithRetry_attempts
         [of 3 example_constants flaky_world "''seed-b''" 200 "\<lambda>j. Error ''timeout''",
          THEN conjunct2, THEN mp, OF h2]
  have r2: "case getLatestBlockHeightWithRetry example_constants ''seed-b'' flaky_world of
           ((latestHeight, err), w') \<Rightarrow>
             latestHeight = 0 \<and> err = Some (Error ''timeout'')
             \<and> served (nodes w' ''seed-b'') = served (nodes flaky_world ''seed-b'') + RtyAttem example_constants" .
  from r1 have a: "fst (getLatestBlockHeightWithRetry example_constants ''seed-a'' flaky_world) = (200, None)"
    "logged (snd (getLatestBlockHeightWithRetry example_constants ''seed-a'' flaky_world))
       = [Info_retry_failed 1, Info_retry_failed 2]"
    unfolding u s by (auto split: prod.splits)
  from r2 have b: "fst (getLatestBlockHeightWithRetry example_constants ''seed-b'' flaky_world)
       = (0, Some (Error ''timeout''))"
    "served (nodes (snd (getLatestBlockHeightWithRetry example_constants ''seed-b'' flaky_world)) ''seed-b'') = 5"
    unfolding s by (auto split: prod.splits)
  have c: "isl (StatusResp (nodes flaky_world ''seed-a'') 0)"
    "isl (StatusResp (nodes flaky_world ''seed-a'') 1)"
    "StatusResp (nodes flaky_world ''seed-a'') 2 = Inr 200"
    "StatusResp (nodes flaky_world ''seed-b'') 4 = Inl (Error ''timeout'')"
    by (simp_all add: flaky_world_def example_world_def scripted_node_def)
  show ?thesis using s(4) a b c by simp
qed

section \<open>The validator cache and the BLS keys\<close>

lemma QueryCachedLatestValidators_frame:
  "QueryCachedLatestValidators e w = (r, e', w') \<Longrightarrow> e' = e"
  by (auto simp: QueryCachedLatestValidators_def queryLatestValidators_def
      split: if_splits prod.splits outcome.splits sum.splits)

lemma QueryCachedLatestValidators_empty:
  "validators e = [] \<Longrightarrow> QueryCachedLatestValidators e w = queryLatestValidators e w"
  by (auto simp: QueryCachedLatestValidators_def queryLatestValidators_def
      split: if_splits prod.splits outcome.splits sum.splits)

lemma queryLatestValidators_request:
  "getRpcClient e = Returns client \<Longrightarrow>
   queryLatestValidators e w
     = (Returns (ValidatorsResp (nodes w client) (served (nodes w client)) None), e, request client w)"
  by (auto simp: queryLatestValidators_def Validators_def split: sum.splits)

lemma QueryCachedLatestValidators_cached:
  "validators e \<noteq> [] \<Longrightarrow> QueryCachedLatestValidators e w = (Returns (Inr (validators e)), e, w)"
  by (simp add: QueryCachedLatestValidators_def)

lemma UpdateCachedLatestValidatorsLoop_tick_error:
  "getRpcClient e = Returns client \<Longrightarrow>
   ValidatorsResp (nodes w client) (served (nodes w client)) None = Inl err \<Longrightarrow>
   UpdateCachedLatestValidatorsLoop_tick e w
     = (Returns (), e, Logger (Error_update_validators err) (request client w))"
  by (simp add: UpdateCachedLatestValidatorsLoop_tick_def queryLatestValidators_request)

lemma UpdateCachedLatestValidatorsLoop_tick_ok:
  "getRpcClient e = Returns client \<Longrightarrow>
   ValidatorsResp (nodes w client) (served (nodes w client)) None = Inr vals \<Longrightarrow>
   UpdateCachedLatestValidatorsLoop_tick e w
     = (Returns (), e\<lparr>validators := vals\<rparr>, request client w)"
  by (simp add: UpdateCachedLatestValidatorsLoop_tick_def queryLatestValidators_request)

text \<open>
  Claim C8. A non-empty cache is returned by the on-demand read as it is, with the executor
  and the world unchanged (no request is made). A tick of the refresh loop whose validator
  query fails returns, keeps the cached sequence, and a following on-demand read of a
  non-empty cache returns that sequence. On an empty cache the on-demand read makes one
  request to the active node and returns its answer.
\<close>

theorem validator_cache_keeps_last_cached:
  "(validators e \<noteq> [] \<longrightarrow>
      QueryCachedLatestValidators e w = (Returns (Inr (validators e)), e, w))
   \<and> (getRpcClient e = Returns client
        \<and> ValidatorsResp (nodes w client) (served (nodes w client)) None = Inl err \<longrightarrow>
      (case UpdateCachedLatestValidatorsLoop_tick e w of
         (r, e', w') \<Rightarrow>
           r = Returns () \<and> validators e' = validators e
           \<and> (validators e \<noteq> [] \<longrightarrow>
                QueryCachedLatestValidators e' w' = (Returns (Inr (validators e)), e', w'))))
   \<and> (validators e = [] \<and> getRpcClient e = Returns client \<longrightarrow>
      QueryCachedLatestValidators e w
        = (Returns (ValidatorsResp (nodes w client) (served (nodes w client)) None), e,
           request client w))"
  by (simp add: QueryCachedLatestValidators_cached UpdateCachedLatestValidatorsLoop_tick_error
      QueryCachedLatestValidators_empty queryLatestValidators_request)

lemma example_executor_rpc:
  "getRpcClient (example_executor [example_client ''seed-a'' 100 1000] vals) = Returns ''seed-a''"
  by (simp add: getRpcClient_def example_executor_def example_client_def)

theorem validator_cache_keeps_last_cached_witness:
  "validators (example_executor [example_client ''seed-a'' 100 1000] example_validators) \<noteq> []
   \<and> fst (QueryCachedLatestValidators
            (example_executor [example_client ''seed-a'' 100 1000] example_validators)
            (example_world (\<lambda>addr. commit_only_node)))
       = Returns (Inr example_validators)
   \<and> snd (snd (QueryCachedLatestValidators
            (example_executor [example_client ''seed-a'' 100 1000] example_validators)
            (example_world (\<lambda>addr. commit_only_node))))
       = example_world (\<lambda>addr. commit_only_node)
   \<and> ValidatorsResp (nodes (example_world (\<lambda>addr. commit_only_node)) ''seed-a'') 0 None
       = Inl (Error ''validators unavailable'')
   \<and> (case UpdateCachedLatestValidatorsLoop_tick
              (example_executor [example_client ''seed-a'' 100 1000] example_validators)
              (example_world (\<lambda>addr. commit_only_node)) of
         (r, e', w') \<Rightarrow>
           validators e' = example_validators
           \<and> fst (QueryCachedLatestValidators e' w') = Returns (Inr example_validators))
   \<and> fst (QueryCachedLatestValidators
            (example_executor [example_client ''seed-a'' 100 1000] [])
            (example_world (\<lambda>addr. validator_node)))
       = Returns (Inr example_validators)
   \<and> served (nodes (snd (snd (QueryCachedLatestValidators
            (example_executor [example_client ''seed-a'' 100 1000] [])
            (example_world (\<lambda>addr. validator_node))))) ''seed-a'') = 1"
proof -
  let ?e = "example_executor [example_client ''seed-a'' 100 1000] example_validators"
  let ?ec = "example_executor [example_client ''seed-a'' 100 1000] []"
  let ?w = "example_world (\<lambda>addr. commit_only_node)"
  let ?wv = "example_world (\<lambda>addr. validator_node)"
  have v: "validators ?e = example_validators" "validators ?e \<noteq> []" "validators ?ec = []"
    by (simp_all add: example_executor_def example_validators_def)
  have f: "ValidatorsResp (nodes ?w ''seed-a'') (served (nodes ?w ''seed-a'')) None
             = Inl (Error ''validators unavailable'')"
    "served (nodes ?w ''seed-a'') = 0"
    by (simp_all add: example_world_def commit_only_node_def)
  have g: "ValidatorsResp (nodes ?wv ''seed-a'') (served (nodes ?wv ''seed-a'')) None
             = Inr example_validators" "served (nodes ?wv ''seed-a'') = 0"
    by (simp_all add: example_world_def validator_node_def)
  note t1 = validator_cache_keeps_last_cached
      [of ?e ?w "''seed-a''" "Error ''validators unavailable''"]
  note t2 = validator_cache_keeps_last_cached
      [of ?ec ?wv "''seed-a''" "Error ''validators unavailable''"]
  from t1 v have a: "QueryCachedLatestValidators ?e ?w = (Returns (Inr example_validators), ?e, ?w)"
    by simp
  from t1 v f example_executor_rpc [of example_validators]
  have b: "case UpdateCachedLatestValidatorsLoop_tick ?e ?w of
         (r, e', w') \<Rightarrow>
           validators e' = example_validators
           \<and> fst (QueryCachedLatestValidators e' w') = Returns (Inr example_validators)"
    by (auto split: prod.splits)
  from t2 v g example_executor_rpc [of "[]"]
  have c: "QueryCachedLatestValidators ?ec ?wv
        = (Returns (Inr example_validators), ?ec, request ''seed-a'' ?wv)"
    by simp
  show ?thesis using a b c v f g by simp
qed

lemma GetValidatorsBlsPublicKey_frame:
  "GetValidatorsBlsPublicKey e w = (r, e', w') \<Longrightarrow> e' = e"
  by (auto simp: GetValidatorsBlsPublicKey_def split: prod.splits outcome.splits sum.splits
      dest: QueryCachedLatestValidators_frame)

lemma QueryTendermintLightBlock_frame:
  "QueryTendermintLightBlock tm e w height = (r, e', w') \<Longrightarrow> e' = e"
  by (auto simp: QueryTendermintLightBlock_def Let_def
      split: prod.splits outcome.splits sum.splits option.splits)

lemma UpdateClientLoop_tick_validators:
  "UpdateClientLoop_tick k e w = (Returns e', w') \<Longrightarrow> validators e' = validators e"
  by (auto simp: UpdateClientLoop_tick_def UpdateClientLoop_decide_def split: prod.splits if_splits)

text \<open>
  Claim C9. The on-demand read leaves the executor, and so the cached sequence, as it
  found it. On an empty cache it returns the sequence the node answers with and makes one
  request; the cache is still empty afterwards, so a second read makes a second request.
  The other operations leave the cached sequence alone as well: only the refresh loop
  writes it.
\<close>

theorem QueryCachedLatestValidators_never_writes_cache:
  "(case QueryCachedLatestValidators e w of (r, e', w') \<Rightarrow> e' = e)
   \<and> (validators e = [] \<and> getRpcClient e = Returns client
        \<and> ValidatorsResp (nodes w client) (served (nodes w client)) None = Inr vals \<longrightarrow>
      QueryCachedLatestValidators e w = (Returns (Inr vals), e, request client w))
   \<and> (validators e = [] \<and> getRpcClient e = Returns client \<longrightarrow>
      (case QueryCachedLatestValidators e w of
         (r1, e1, w1) \<Rightarrow>
           (case QueryCachedLatestValidators e1 w1 of
              (r2, e2, w2) \<Rightarrow>
                validators e2 = []
                \<and> served (nodes w1 client) = served (nodes w client) + 1
                \<and> served (nodes w2 client) = served (nodes w client) + 2)))
   \<and> (case GetValidatorsBlsPublicKey e w of (r, e', w') \<Rightarrow> e' = e)
   \<and> (case QueryTendermintLightBlock tm e w height of (r, e', w') \<Rightarrow> e' = e)
   \<and> (case UpdateClientLoop_tick k e w of
         (Returns e', w') \<Rightarrow> validators e' = validators e
       | (Panics p, w') \<Rightarrow> True)"
proof (intro conjI impI)
  show "case QueryCachedLatestValidators e w of (r, e', w') \<Rightarrow> e' = e"
    by (auto dest: QueryCachedLatestValidators_frame)
  show "case GetValidatorsBlsPublicKey e w of (r, e', w') \<Rightarrow> e' = e"
    by (auto dest: GetValidatorsBlsPublicKey_frame)
  show "case QueryTendermintLightBlock tm e w height of (r, e', w') \<Rightarrow> e' = e"
    by (auto dest: QueryTendermintLightBlock_frame)
  show "case UpdateClientLoop_tick k e w of
         (Returns e', w') \<Rightarrow> validators e' = validators e
       | (Panics p, w') \<Rightarrow> True"
    by (auto split: prod.splits outcome.splits dest: UpdateClientLoop_tick_validators)
next
  assume "validators e = [] \<and> getRpcClient e = Returns client
        \<and> ValidatorsResp (nodes w client) (served (nodes w client)) None = Inr vals"
  then show "QueryCachedLatestValidators e w = (Returns (Inr vals), e, request client w)"
    by (simp add: QueryCachedLatestValidators_empty queryLatestValidators_request)
next
  assume "validators e = [] \<and> getRpcClient e = Returns client"
  then show "case QueryCachedLatestValidators e w of
         (r1, e1, w1) \<Rightarrow>
           (case QueryCachedLatestValidators e1 w1 of
              (r2, e2, w2) \<Rightarrow>
                validators e2 = []
                \<and> served (nodes w1 client) = served (nodes w client) + 1
                \<and> served (nodes w2 client) = served (nodes w client) + 2)"
    by (simp add: QueryCachedLatestValidators_empty queryLatestValidators_request)
qed

theorem QueryCachedLatestValidators_never_writes_cache_witness:
  "validators (example_executor [example_client ''seed-a'' 100 1000] []) = []
   \<and> QueryCachedLatestValidators (example_executor [example_client ''seed-a'' 100 1000] [])
        (example_world (\<lambda>addr. validator_node))
       = (Returns (Inr example_validators), example_executor [example_client ''seed-a'' 100 1000] [],
          request ''seed-a'' (example_world (\<lambda>addr. validator_node)))
   \<and> (case QueryCachedLatestValidators (example_executor [example_client ''seed-a'' 100 1000] [])
              (example_world (\<lambda>addr. validator_node)) of
         (r1, e1, w1) \<Rightarrow>
           (case QueryCachedLatestValidators e1 w1 of
              (r2, e2, w2) \<Rightarrow>
                validators e2 = [] \<and> served (nodes w1 ''seed-a'') = 1
                \<and> served (nodes w2 ''seed-a'') = 2))"
proof -
  let ?ec = "example_executor [example_client ''seed-a'' 100 1000] []"
  let ?wv = "example_world (\<lambda>addr. validator_node)"
  have v: "validators ?ec = []"
    by (simp add: example_executor_def)
  have g: "ValidatorsResp (nodes ?wv ''seed-a'') (served (nodes ?wv ''seed-a'')) None
             = Inr example_validators" "served (nodes ?wv ''seed-a'') = 0"
    by (simp_all add: example_world_def validator_node_def)
  have h: "validators ?ec = [] \<and> getRpcClient ?ec = Returns ''seed-a''
        \<and> ValidatorsResp (nodes ?wv ''seed-a'') (served (nodes ?wv ''seed-a'')) None
            = Inr example_validators"
    using v g example_executor_rpc [of "[]"] by simp
  note t = QueryCachedLatestValidators_never_writes_cache
      [where e = ?ec and w = ?wv and client = "''seed-a''" and vals = example_validators]
  from t [THEN conjunct2, THEN conjunct1, THEN mp, OF h]
  have a: "QueryCachedLatestValidators ?ec ?wv
             = (Returns (Inr example_validators), ?ec, request ''seed-a'' ?wv)" .
  from h have h': "validators ?ec = [] \<and> getRpcClient ?ec = Returns ''seed-a''" by simp
  from t [THEN conjunct2, THEN conjunct2, THEN conjunct1, THEN mp, OF h']
  have b: "case QueryCachedLatestValidators ?ec ?wv of
         (r1, e1, w1) \<Rightarrow>
           (case QueryCachedLatestValidators e1 w1 of
              (r2, e2, w2) \<Rightarrow>
                validators e2 = []
                \<and> served (nodes w1 ''seed-a'') = served (nodes ?wv ''seed-a'') + 1
                \<and> served (nodes w2 ''seed-a'') = served (nodes ?wv ''seed-a'') + 2)" .
  show ?thesis using v a b unfolding g(2) by (simp split: prod.splits)
qed

lemma GetValidatorsBlsPublicKey_loop_map:
  "GetValidatorsBlsPublicKey_loop (map Some vs) keys
     = Returns (keys @ map (\<lambda>v. hex_EncodeToString (RelayerBlsKey v)) vs)"
  by (induction vs arbitrary: keys) simp_all

lemma GetValidatorsBlsPublicKey_loop_nil:
  "None \<in> set vals \<Longrightarrow> GetValidatorsBlsPublicKey_loop vals keys = Panics NilPointerDereference"
proof (induction vals arbitrary: keys)
  case Nil then show ?case by simp
next
  case (Cons v vals)
  then show ?case by (cases v) auto
qed

lemma GetValidatorsBlsPublicKey_result:
  "fst (GetValidatorsBlsPublicKey e w) =
     (case fst (QueryCachedLatestValidators e w) of
        Panics p \<Rightarrow> Panics p
      | Returns (Inl err) \<Rightarrow> Returns (Inl err)
      | Returns (Inr vals) \<Rightarrow>
          (case GetValidatorsBlsPublicKey_loop vals [] of
             Panics p \<Rightarrow> Panics p
           | Returns keys \<Rightarrow> Returns (Inr keys)))"
  by (simp add: GetValidatorsBlsPublicKey_def split: prod.splits outcome.splits sum.splits)

text \<open>
  Claim C10, as the code has it. \<open>GetValidatorsBlsPublicKey\<close> returns an error exactly
  when the cached validator read returns that error. When the read returns a validator
  sequence with no nil entry, it returns one key per validator, in the same order, the
  \<open>i\<close>-th key being the hexadecimal encoding of the \<open>i\<close>-th validator's BLS relayer key.
  When the sequence has a nil entry, it panics.
\<close>

theorem GetValidatorsBlsPublicKey_keys:
  "(fst (GetValidatorsBlsPublicKey e w) = Returns (Inl err)
      \<longleftrightarrow> fst (QueryCachedLatestValidators e w) = Returns (Inl err))
   \<and> (fst (QueryCachedLatestValidators e w) = Returns (Inr (map Some vs)) \<longrightarrow>
        (\<exists>keys. fst (GetValidatorsBlsPublicKey e w) = Returns (Inr keys)
           \<and> length keys = length vs
           \<and> (\<forall>i<length vs. keys ! i = hex_EncodeToString (RelayerBlsKey (vs ! i)))))
   \<and> (fst (QueryCachedLatestValidators e w) = Returns (Inr vals) \<and> None \<in> set vals \<longrightarrow>
        fst (GetValidatorsBlsPublicKey e w) = Panics NilPointerDereference)"
proof (intro conjI impI)
  show "fst (GetValidatorsBlsPublicKey e w) = Returns (Inl err)
      \<longleftrightarrow> fst (QueryCachedLatestValidators e w) = Returns (Inl err)"
    by (auto simp: GetValidatorsBlsPublicKey_result split: outcome.splits sum.splits)
next
  assume "fst (QueryCachedLatestValidators e w) = Returns (Inr (map Some vs))"
  then have "fst (GetValidatorsBlsPublicKey e w)
      = Returns (Inr (map (\<lambda>v. hex_EncodeToString (RelayerBlsKey v)) vs))"
    by (simp add: GetValidatorsBlsPublicKey_result GetValidatorsBlsPublicKey_loop_map)
  then show "\<exists>keys. fst (GetValidatorsBlsPublicKey e w) = Returns (Inr keys)
           \<and> length keys = length vs
           \<and> (\<forall>i<length vs. keys ! i = hex_EncodeToString (RelayerBlsKey (vs ! i)))"
    by simp
next
  assume "fst (QueryCachedLatestValidators e w) = Returns (Inr vals) \<and> None \<in> set vals"
  then show "fst (GetValidatorsBlsPublicKey e w) = Panics NilPointerDereference"
    by (simp add: GetValidatorsBlsPublicKey_result GetValidatorsBlsPublicKey_loop_nil)
qed

lemma hex_example:
  "hex_EncodeToString [0x8a, 0x0f] = ''8a0f''" "hex_EncodeToString [0x00, 0xff, 0x10] = ''00ff10''"
  by (simp_all add: hex_EncodeToString_def hextable_def)

lemma example_read:
  "nodes w ''seed-a'' = n \<Longrightarrow> served n = 0 \<Longrightarrow>
   fst (QueryCachedLatestValidators (example_executor [example_client ''seed-a'' 100 1000] []) w)
     = Returns (ValidatorsResp n 0 None)"
  by (simp add: QueryCachedLatestValidators_empty queryLatestValidators_request example_executor_rpc
      example_executor_def [where vals = "[]", THEN arg_cong [where f = validators]])

theorem GetValidatorsBlsPublicKey_keys_witness:
  "fst (QueryCachedLatestValidators (example_executor [example_client ''seed-a'' 100 1000] [])
          (example_world (\<lambda>addr. validator_node)))
     = Returns (Inr example_validators)
   \<and> fst (GetValidatorsBlsPublicKey (example_executor [example_client ''seed-a'' 100 1000] [])
          (example_world (\<lambda>addr. validator_node)))
     = Returns (Inr [''8a0f'', ''00ff10''])
   \<and> fst (QueryCachedLatestValidators (example_executor [example_client ''seed-a'' 100 1000] [])
          (example_world (\<lambda>addr. commit_only_node)))
     = Returns (Inl (Error ''validators unavailable''))
   \<and> fst (GetValidatorsBlsPublicKey (example_executor [example_client ''seed-a'' 100 1000] [])
          (example_world (\<lambda>addr. commit_only_node)))
     = Returns (Inl (Error ''validators unavailable''))
   \<and> None \<in> set [Some \<lparr>Address = [1], VotingPower = 10, RelayerBlsKey = [0x8a, 0x0f]\<rparr>, None]
   \<and> fst (GetValidatorsBlsPublicKey (example_executor [example_client ''seed-a'' 100 1000] [])
          (example_world (\<lambda>addr. nil_entry_node)))
     = Panics NilPointerDereference"
proof -
  let ?ec = "example_executor [example_client ''seed-a'' 100 1000] []"
  let ?wv = "example_world (\<lambda>addr. validator_node)"
  let ?wc = "example_world (\<lambda>addr. commit_only_node)"
  let ?wn = "example_world (\<lambda>addr. nil_entry_node)"
  let ?vs = "[\<lparr>Address = [1], VotingPower = 10, RelayerBlsKey = [0x8a, 0x0f]\<rparr>,
              \<lparr>Address = [2], VotingPower = 10, RelayerBlsKey = [0x00, 0xff, 0x10]\<rparr>]"
  let ?nil = "[Some \<lparr>Address = [1], VotingPower = 10, RelayerBlsKey = [0x8a, 0x0f]\<rparr>, None]"
  have ev: "example_validators = map Some ?vs" by (simp add: example_validators_def)
  have q: "fst (QueryCachedLatestValidators ?ec ?wv) = Returns (Inr (map Some ?vs))"
    using example_read [of ?wv validator_node]
    by (simp add: example_world_def validator_node_def ev)
  have qc: "fst (QueryCachedLatestValidators ?ec ?wc) = Returns (Inl (Error ''validators unavailable''))"
    using example_read [of ?wc commit_only_node]
    by (simp add: example_world_def commit_only_node_def)
  have qn: "fst (QueryCachedLatestValidators ?ec ?wn) = Returns (Inr ?nil) \<and> None \<in> set ?nil"
    using example_read [of ?wn nil_entry_node]
    by (simp add: example_world_def nil_entry_node_def)
  from GetValidatorsBlsPublicKey_keys
         [where e = ?ec and w = ?wv and vs = ?vs, THEN conjunct2, THEN conjunct1, THEN mp, OF q]
  obtain keys where k: "fst (GetValidatorsBlsPublicKey ?ec ?wv) = Returns (Inr keys)"
    "length keys = length ?vs"
    "\<forall>i<length ?vs. keys ! i = hex_EncodeToString (RelayerBlsKey (?vs ! i))"
    by blast
  from k(3) have "keys ! 0 = ''8a0f''" "keys ! 1 = ''00ff10''"
    using hex_example by simp_all
  moreover from k(2) have "length keys = 2" by simp
  ultimately have "keys = [''8a0f'', ''00ff10'']"
    by (cases keys; cases "tl keys"; cases "tl (tl keys)") auto
  with k(1) have a: "fst (GetValidatorsBlsPublicKey ?ec ?wv) = Returns (Inr [''8a0f'', ''00ff10''])"
    by simp
  note b = GetValidatorsBlsPublicKey_keys
         [where e = ?ec and w = ?wc and err = "Error ''validators unavailable''",
          THEN conjunct1, THEN iffD2, OF qc]
  note c = GetValidatorsBlsPublicKey_keys
         [where e = ?ec and w = ?wn and vals = ?nil, THEN conjunct2, THEN conjunct2, THEN mp, OF qn]
  note q' = q [folded ev]
  note n = qn [THEN conjunct2]
  show ?thesis by (intro conjI; fact q' a qc b n c)
qed

text \<open>
  Claim C10, as stated, fails: the read succeeds with a sequence whose second entry is
  nil, and \<open>GetValidatorsBlsPublicKey\<close> returns neither an error nor a list of keys.
\<close>

theorem GetValidatorsBlsPublicKey_panics_on_nil_entry:
  "fst (QueryCachedLatestValidators (example_executor [example_client ''seed-a'' 100 1000] [])
          (example_world (\<lambda>addr. nil_entry_node)))
     = Returns (Inr [Some \<lparr>Address = [1], VotingPower = 10, RelayerBlsKey = [0x8a, 0x0f]\<rparr>, None])
   \<and> fst (GetValidatorsBlsPublicKey (example_executor [example_client ''seed-a'' 100 1000] [])
          (example_world (\<lambda>addr. nil_entry_node)))
     = Panics NilPointerDereference"
  by (simp add: GetValidatorsBlsPublicKey_def QueryCachedLatestValidators_def
      queryLatestValidators_def getRpcClient_def Validators_def request_def
      example_executor_def example_client_def example_world_def nil_entry_node_def)

text \<open>
  Claim C1. The claim asks that an error of the validator query is returned to the caller.
  On a node whose validator query fails and whose commit query succeeds, the builder does
  not return an error: it dereferences the nil result of the validator query and panics.
\<close>

theorem QueryTendermintLightBlock_validators_error_panics:
  "fst (QueryTendermintLightBlock tm
          (example_executor [example_client ''seed-a'' 100 1000] [])
          (example_world (\<lambda>addr. commit_only_node)) 7)
     = Panics NilPointerDereference"
  by (simp add: QueryTendermintLightBlock_def getRpcClient_def example_executor_def
        example_client_def example_world_def commit_only_node_def Validators_def Commit_at_def
        request_def)


text \<open>
  What the builder does with each query's answer: an error of the commit query is
  returned, while an error of the validator query with a commit at hand is the panic.
\<close>

lemma QueryTendermintLightBlock_commit_error:
  "getRpcClient e = Returns client \<Longrightarrow>
   CommitResp (nodes w client) (Suc (served (nodes w client))) height = Inl err \<Longrightarrow>
   fst (QueryTendermintLightBlock tm e w height) = Returns (Inl err)"
  by (simp add: QueryTendermintLightBlock_def Validators_def Commit_at_def split: prod.splits)

lemma QueryTendermintLightBlock_validators_error:
  "getRpcClient e = Returns client \<Longrightarrow>
   ValidatorsResp (nodes w client) (served (nodes w client)) (Some height) = Inl err \<Longrightarrow>
   CommitResp (nodes w client) (Suc (served (nodes w client))) height = Inr commit \<Longrightarrow>
   fst (QueryTendermintLightBlock tm e w height) = Panics NilPointerDereference"
  by (simp add: QueryTendermintLightBlock_def Validators_def Commit_at_def split: prod.splits)

section \<open>The health monitor loop: the highest client and the switch\<close>

lemma highest_loop_upper:
  "highest_loop cs idx hh0 hi0 = (hh, hi) \<Longrightarrow> hh0 \<le> hh \<and> (\<forall>c\<in>set cs. Height c \<le> hh)"
proof (induction cs arbitrary: idx hh0 hi0)
  case Nil then show ?case by simp
next
  case (Cons c cs)
  show ?case
  proof (cases "Height c > hh0")
    case True
    with Cons.prems have "highest_loop cs (idx + 1) (Height c) idx = (hh, hi)" by simp
    from Cons.IH [OF this] True show ?thesis by auto
  next
    case False
    with Cons.prems have "highest_loop cs (idx + 1) hh0 hi0 = (hh, hi)" by simp
    from Cons.IH [OF this] False show ?thesis by auto
  qed
qed

lemma highest_loop_first:
  "highest_loop cs idx hh0 hi0 = (hh, hi) \<Longrightarrow>
     (hh = hh0 \<and> hi = hi0 \<and> (\<forall>c\<in>set cs. Height c \<le> hh0))
   \<or> (\<exists>j<length cs. hi = idx + int j \<and> Height (cs ! j) = hh \<and> hh0 < hh
          \<and> (\<forall>j'<j. Height (cs ! j') < hh))"
proof (induction cs arbitrary: idx hh0 hi0)
  case Nil then show ?case by simp
next
  case (Cons c cs)
  show ?case
  proof (cases "Height c > hh0")
    case True
    with Cons.prems have r: "highest_loop cs (idx + 1) (Height c) idx = (hh, hi)" by simp
    from Cons.IH [OF r] show ?thesis
    proof
      assume "hh = Height c \<and> hi = idx \<and> (\<forall>c'\<in>set cs. Height c' \<le> Height c)"
      with True have "0 < length (c # cs) \<and> hi = idx + int 0 \<and> Height ((c # cs) ! 0) = hh \<and> hh0 < hh
          \<and> (\<forall>j'<0. Height ((c # cs) ! j') < hh)" by simp
      then show ?thesis by blast
    next
      assume "\<exists>j<length cs. hi = idx + 1 + int j \<and> Height (cs ! j) = hh \<and> Height c < hh
          \<and> (\<forall>j'<j. Height (cs ! j') < hh)"
      then obtain j where j: "j < length cs" "hi = idx + 1 + int j" "Height (cs ! j) = hh"
        "Height c < hh" "\<forall>j'<j. Height (cs ! j') < hh" by blast
      have "\<forall>j'<Suc j. Height ((c # cs) ! j') < hh"
        using j(4,5) by (auto simp: less_Suc_eq_0_disj)
      moreover have "hh0 < hh" using True j(4) by simp
      ultimately have "Suc j < length (c # cs) \<and> hi = idx + int (Suc j)
          \<and> Height ((c # cs) ! Suc j) = hh \<and> hh0 < hh
          \<and> (\<forall>j'<Suc j. Height ((c # cs) ! j') < hh)"
        using j by simp
      then show ?thesis by blast
    qed
  next
    case False
    with Cons.prems have r: "highest_loop cs (idx + 1) hh0 hi0 = (hh, hi)" by simp
    from Cons.IH [OF r] show ?thesis
    proof
      assume "hh = hh0 \<and> hi = hi0 \<and> (\<forall>c\<in>set cs. Height c \<le> hh0)"
      with False show ?thesis by auto
    next
      assume "\<exists>j<length cs. hi = idx + 1 + int j \<and> Height (cs ! j) = hh \<and> hh0 < hh
          \<and> (\<forall>j'<j. Height (cs ! j') < hh)"
      then obtain j where j: "j < length cs" "hi = idx + 1 + int j" "Height (cs ! j) = hh"
        "hh0 < hh" "\<forall>j'<j. Height (cs ! j') < hh" by blast
      have "Height c < hh" using False j(4) by simp
      then have "\<forall>j'<Suc j. Height ((c # cs) ! j') < hh"
        using j(5) by (auto simp: less_Suc_eq_0_disj)
      then have "Suc j < length (c # cs) \<and> hi = idx + int (Suc j)
          \<and> Height ((c # cs) ! Suc j) = hh \<and> hh0 < hh
          \<and> (\<forall>j'<Suc j. Height ((c # cs) ! j') < hh)"
        using j by simp
      then show ?thesis by blast
    qed
  qed
qed

text \<open>The highest client of a non-empty pool: the maximum height, at its first position.\<close>

lemma highest_spec:
  assumes "highest cs = (hh, hi)" and "cs \<noteq> []"
  shows "0 \<le> hi" and "hi < int (length cs)" and "Height (cs ! nat hi) = hh"
    and "\<forall>c\<in>set cs. Height c \<le> hh" and "\<forall>j<nat hi. Height (cs ! j) < hh"
proof -
  from assms(1) have r: "highest_loop cs 0 0 0 = (hh, hi)" by (simp add: highest_def)
  from highest_loop_upper [OF r] show u: "\<forall>c\<in>set cs. Height c \<le> hh" by simp
  from highest_loop_first [OF r]
  have "0 \<le> hi \<and> hi < int (length cs) \<and> Height (cs ! nat hi) = hh
        \<and> (\<forall>j<nat hi. Height (cs ! j) < hh)"
  proof
    assume a: "hh = 0 \<and> hi = 0 \<and> (\<forall>c\<in>set cs. Height c \<le> 0)"
    with assms(2) have "Height (cs ! 0) \<le> 0" by (simp add: Ball_def in_set_conv_nth) (metis length_greater_0_conv)
    with a assms(2) show ?thesis by simp
  next
    assume "\<exists>j<length cs. hi = 0 + int j \<and> Height (cs ! j) = hh \<and> 0 < hh
          \<and> (\<forall>j'<j. Height (cs ! j') < hh)"
    then show ?thesis by auto
  qed
  then show "0 \<le> hi" "hi < int (length cs)" "Height (cs ! nat hi) = hh"
    "\<forall>j<nat hi. Height (cs ! j) < hh" by simp_all
qed

lemma highest_lowest_index:
  assumes "highest cs = (hh, hi)" and "i < length cs" and "Height (cs ! i) = hh"
  shows "hi \<le> int i"
proof -
  from assms(2) have ne: "cs \<noteq> []" by auto
  from highest_spec(5) [OF assms(1) ne] assms(3) have "\<not> i < nat hi" by auto
  then show ?thesis by simp
qed

lemma collect_length': "UpdateClientLoop_collect k cs w = (cs', w') \<Longrightarrow> length cs' = length cs"
proof (induction cs arbitrary: w cs' w')
  case Nil then show ?case by simp
next
  case (Cons c cs)
  obtain c1 w1 where p: "UpdateClientLoop_poll k c w = (c1, w1)"
    by (cases "UpdateClientLoop_poll k c w")
  obtain cs1 w2 where r: "UpdateClientLoop_collect k cs w1 = (cs1, w2)"
    by (cases "UpdateClientLoop_collect k cs w1")
  from Cons.prems p r have "cs' = c1 # cs1" by simp
  with Cons.IH [OF r] show ?case by simp
qed

lemma collect_length: "length (fst (UpdateClientLoop_collect k cs w)) = length cs"
  by (cases "UpdateClientLoop_collect k cs w") (simp add: collect_length')

lemma decide_valid:
  "0 \<le> clientIdx e \<Longrightarrow> clientIdx e < int (length (greenfieldClients e)) \<Longrightarrow>
   UpdateClientLoop_decide k e =
     Returns (if Height (greenfieldClients e ! nat (clientIdx e)) + FallBehindThreshold k
                 < fst (highest (greenfieldClients e))
              then e\<lparr>clientIdx := snd (highest (greenfieldClients e))\<rparr> else e)"
  by (simp add: UpdateClientLoop_decide_def split: prod.splits)

lemma margin_unat:
  fixes T :: uint64
  assumes "unat T + 101 < 2 ^ 64"
  shows "unat (100 + T) = 100 + unat T" and "unat (100 + T + 1) = 101 + unat T"
    and "unat (100 + T - 1) = 99 + unat T"
proof -
  have "unat (100 :: uint64) + unat T < 2 ^ LENGTH(64)" using assms by simp
  then have "unat (100 + T) = unat (100 :: uint64) + unat T"
    by (simp only: unat_add_lem)
  then show a: "unat (100 + T) = 100 + unat T" by simp
  have "unat (100 + T) + unat (1 :: uint64) < 2 ^ LENGTH(64)" using assms a by simp
  then have "unat (100 + T + 1) = unat (100 + T) + unat (1 :: uint64)"
    by (simp only: unat_add_lem)
  then show "unat (100 + T + 1) = 101 + unat T" using a by simp
  have "100 + T \<noteq> 0" using a by (metis add_is_0 unat_0 zero_neq_numeral)
  then have "unat (100 + T - 1) = unat (100 + T) - 1" by (rule unat_minus_one)
  then show "unat (100 + T - 1) = 99 + unat T" using a by simp
qed

lemma margin_below_1: "unat (T::64 word) + 101 < 2 ^ 64 \<Longrightarrow> \<not> (100 + T < 100 + T - 1)"
  using margin_unat [of T] by (simp add: word_less_nat_alt)
lemma margin_below_2: "unat (T::64 word) + 101 < 2 ^ 64 \<Longrightarrow> \<not> (100 + T < 100)"
  using margin_unat [of T] by (simp add: word_less_nat_alt)
lemma margin_above_1: "unat (T::64 word) + 101 < 2 ^ 64 \<Longrightarrow> 100 + T < 100 + T + 1"
  using margin_unat [of T] by (simp add: word_less_nat_alt)
lemma margin_above_2: "unat (T::64 word) + 101 < 2 ^ 64 \<Longrightarrow> 100 < 100 + T + 1"
  using margin_unat [of T] by (simp add: word_less_nat_alt)

lemma decide_below_margin:
  assumes "clientIdx e = 0"
    and "map Height (greenfieldClients e) = [100, 100 + FallBehindThreshold k - 1]"
    and "unat (FallBehindThreshold k) + 101 < 2 ^ 64"
  shows "UpdateClientLoop_decide k e = Returns e"
proof -
  from assms(2) obtain c1 c2 where cs: "greenfieldClients e = [c1, c2]"
    and h: "Height c1 = 100" "Height c2 = 100 + FallBehindThreshold k - 1"
    by (auto simp: map_eq_Cons_conv)
  have "\<not> (Height c1 + FallBehindThreshold k < fst (highest [c1, c2]))"
    using margin_below_1 [OF assms(3)] margin_below_2 [OF assms(3)] by (simp add: highest_def h)
  then show ?thesis using assms(1) cs by (simp add: decide_valid)
qed

lemma decide_above_margin:
  assumes "clientIdx e = 0"
    and "map Height (greenfieldClients e) = [100, 100 + FallBehindThreshold k + 1]"
    and "unat (FallBehindThreshold k) + 101 < 2 ^ 64"
  shows "UpdateClientLoop_decide k e = Returns (e\<lparr>clientIdx := 1\<rparr>)"
proof -
  from assms(2) obtain c1 c2 where cs: "greenfieldClients e = [c1, c2]"
    and h: "Height c1 = 100" "Height c2 = 100 + FallBehindThreshold k + 1"
    by (auto simp: map_eq_Cons_conv)
  have "highest [c1, c2] = (100 + FallBehindThreshold k + 1, 1)"
    using margin_above_2 [OF assms(3)] by (simp add: highest_def h)
  then show ?thesis using assms(1) cs h margin_above_1 [OF assms(3)] by (simp add: decide_valid)
qed

lemma tick_valid:
  assumes "0 \<le> clientIdx e" and "clientIdx e < int (length (greenfieldClients e))"
  shows "\<exists>e' w'. UpdateClientLoop_tick k e w = (Returns e', w')
     \<and> greenfieldClients e' = fst (UpdateClientLoop_collect k (greenfieldClients e) (Logger Info_monitor_start w))
     \<and> w' = snd (UpdateClientLoop_collect k (greenfieldClients e) (Logger Info_monitor_start w))
     \<and> length (greenfieldClients e') = length (greenfieldClients e)
     \<and> validators e' = validators e
     \<and> clientIdx e' =
         (if Height (greenfieldClients e' ! nat (clientIdx e)) + FallBehindThreshold k
               < fst (highest (greenfieldClients e'))
          then snd (highest (greenfieldClients e')) else clientIdx e)"
proof -
  obtain cs' w' where c: "UpdateClientLoop_collect k (greenfieldClients e) (Logger Info_monitor_start w) = (cs', w')"
    by (cases "UpdateClientLoop_collect k (greenfieldClients e) (Logger Info_monitor_start w)")
  from collect_length [of k "greenfieldClients e" "Logger Info_monitor_start w"] c
  have l: "length cs' = length (greenfieldClients e)" by simp
  let ?e1 = "e\<lparr>greenfieldClients := cs'\<rparr>"
  have "0 \<le> clientIdx ?e1" "clientIdx ?e1 < int (length (greenfieldClients ?e1))"
    using assms l by simp_all
  from decide_valid [OF this, of k] c l show ?thesis
    by (simp add: UpdateClientLoop_tick_def)
qed

text \<open>
  Claim C3. A tick on a pool whose active index is valid returns; the search finds the
  maximum height of the collected heights and a position where it stands, and the active
  index after the tick is that position if the active client's height plus the
  fall-behind threshold (in \<open>uint64\<close>) is strictly below the maximum, and is unchanged
  otherwise. With heights \<open>[100, 100 + threshold - 1]\<close> the decision leaves the executor as
  it is; with \<open>[100, 100 + threshold + 1]\<close> it switches to the second client. The two
  examples are for thresholds with which these heights do not wrap around.
\<close>

theorem UpdateClientLoop_tick_switch:
  "(0 \<le> clientIdx e \<and> clientIdx e < int (length (greenfieldClients e)) \<longrightarrow>
      (\<exists>e' w'. UpdateClientLoop_tick k e w = (Returns e', w')
         \<and> length (greenfieldClients e') = length (greenfieldClients e)
         \<and> (case highest (greenfieldClients e') of
              (highestHeight, highestIdx) \<Rightarrow>
                (\<forall>c\<in>set (greenfieldClients e'). Height c \<le> highestHeight)
                \<and> 0 \<le> highestIdx \<and> highestIdx < int (length (greenfieldClients e'))
                \<and> Height (greenfieldClients e' ! nat highestIdx) = highestHeight
                \<and> clientIdx e' =
                    (if Height (greenfieldClients e' ! nat (clientIdx e)) + FallBehindThreshold k
                          < highestHeight
                     then highestIdx else clientIdx e))))
   \<and> (clientIdx e = 0
        \<and> map Height (greenfieldClients e) = [100, 100 + FallBehindThreshold k - 1]
        \<and> unat (FallBehindThreshold k) + 101 < 2 ^ 64 \<longrightarrow>
      UpdateClientLoop_decide k e = Returns e)
   \<and> (clientIdx e = 0
        \<and> map Height (greenfieldClients e) = [100, 100 + FallBehindThreshold k + 1]
        \<and> unat (FallBehindThreshold k) + 101 < 2 ^ 64 \<longrightarrow>
      UpdateClientLoop_decide k e = Returns (e\<lparr>clientIdx := 1\<rparr>))"
proof (intro conjI impI)
  assume v: "0 \<le> clientIdx e \<and> clientIdx e < int (length (greenfieldClients e))"
  then have v1: "0 \<le> clientIdx e" and v2: "clientIdx e < int (length (greenfieldClients e))"
    by simp_all
  from tick_valid [OF v1 v2, of k w] obtain e' w' where
    t: "UpdateClientLoop_tick k e w = (Returns e', w')"
    and l: "length (greenfieldClients e') = length (greenfieldClients e)"
    and i: "clientIdx e' =
         (if Height (greenfieldClients e' ! nat (clientIdx e)) + FallBehindThreshold k
               < fst (highest (greenfieldClients e'))
          then snd (highest (greenfieldClients e')) else clientIdx e)"
    by blast
  obtain hh hi where h: "highest (greenfieldClients e') = (hh, hi)"
    by (cases "highest (greenfieldClients e')")
  from v1 v2 l have ne: "greenfieldClients e' \<noteq> []" by auto
  note s = highest_spec [OF h ne]
  show "\<exists>e' w'. UpdateClientLoop_tick k e w = (Returns e', w')
         \<and> length (greenfieldClients e') = length (greenfieldClients e)
         \<and> (case highest (greenfieldClients e') of
              (highestHeight, highestIdx) \<Rightarrow>
                (\<forall>c\<in>set (greenfieldClients e'). Height c \<le> highestHeight)
                \<and> 0 \<le> highestIdx \<and> highestIdx < int (length (greenfieldClients e'))
                \<and> Height (greenfieldClients e' ! nat highestIdx) = highestHeight
                \<and> clientIdx e' =
                    (if Height (greenfieldClients e' ! nat (clientIdx e)) + FallBehindThreshold k
                          < highestHeight
                     then highestIdx else clientIdx e))"
    using t l i h s by (intro exI [of _ e'] exI [of _ w']) simp
next
  assume "clientIdx e = 0
        \<and> map Height (greenfieldClients e) = [100, 100 + FallBehindThreshold k - 1]
        \<and> unat (FallBehindThreshold k) + 101 < 2 ^ 64"
  then show "UpdateClientLoop_decide k e = Returns e"
    by (intro decide_below_margin) simp_all
next
  assume "clientIdx e = 0
        \<and> map Height (greenfieldClients e) = [100, 100 + FallBehindThreshold k + 1]
        \<and> unat (FallBehindThreshold k) + 101 < 2 ^ 64"
  then show "UpdateClientLoop_decide k e = Returns (e\<lparr>clientIdx := 1\<rparr>)"
    by (intro decide_above_margin) simp_all
qed


text \<open>Evaluating a tick on a concrete pool: the retry loop unfolds on a numeral.\<close>

lemma retry_loop_numeral:
  "retry_loop (numeral v) n f cb l s =
     (case f s of (None, s') \<Rightarrow> (None, s')
      | (Some err, s') \<Rightarrow> retry_loop (pred_numeral v) (Suc n) f cb (Some err) (cb n err s'))"
  by (simp add: numeral_eq_Suc)

lemmas tick_eval = UpdateClientLoop_tick_def UpdateClientLoop_poll_def time_Since_def time_Now_def
  getLatestBlockHeightWithRetry_def retry_Do_def retry_loop_numeral latestHeight_attempt_def
  latestHeight_onRetry_def getLatestBlockHeight_def Status_def request_def Logger_def
  UpdateClientLoop_decide_def highest_def example_world_def example_executor_def
  example_client_def example_constants_def scripted_node_def

lemma monitor_tick_result:
  "fst (UpdateClientLoop_tick example_constants monitor_pool monitor_world)
     = Returns (monitor_pool\<lparr>clientIdx := 1,
                 greenfieldClients := [example_client ''seed-a'' 100 1001,
                                       example_client ''seed-b'' 106 1003]\<rparr>)"
  by (simp add: tick_eval monitor_pool_def monitor_world_def)

theorem UpdateClientLoop_tick_switch_witness:
  "0 \<le> clientIdx monitor_pool
   \<and> clientIdx monitor_pool < int (length (greenfieldClients monitor_pool))
   \<and> (\<exists>e' w'. UpdateClientLoop_tick example_constants monitor_pool monitor_world = (Returns e', w')
          \<and> map Height (greenfieldClients e') = [100, 106]
          \<and> highest (greenfieldClients e') = (106, 1)
          \<and> clientIdx e' = 1)
   \<and> UpdateClientLoop_decide example_constants
        (example_executor [example_client ''seed-a'' 100 1000, example_client ''seed-b'' 104 1000] [])
       = Returns (example_executor [example_client ''seed-a'' 100 1000, example_client ''seed-b'' 104 1000] [])
   \<and> UpdateClientLoop_decide example_constants
        (example_executor [example_client ''seed-a'' 100 1000, example_client ''seed-b'' 106 1000] [])
       = Returns ((example_executor [example_client ''seed-a'' 100 1000, example_client ''seed-b'' 106 1000] [])
                    \<lparr>clientIdx := 1\<rparr>)"
proof -
  have v: "0 \<le> clientIdx monitor_pool \<and> clientIdx monitor_pool < int (length (greenfieldClients monitor_pool))"
    by (simp add: monitor_pool_def example_executor_def)
  note t = UpdateClientLoop_tick_switch [where k = example_constants]
  from t [where e = monitor_pool and w = monitor_world, THEN conjunct1, THEN mp, OF v]
  obtain e' where "\<exists>w'. UpdateClientLoop_tick example_constants monitor_pool monitor_world = (Returns e', w')
         \<and> length (greenfieldClients e') = length (greenfieldClients monitor_pool)
         \<and> (case highest (greenfieldClients e') of
              (highestHeight, highestIdx) \<Rightarrow>
                (\<forall>c\<in>set (greenfieldClients e'). Height c \<le> highestHeight)
                \<and> 0 \<le> highestIdx \<and> highestIdx < int (length (greenfieldClients e'))
                \<and> Height (greenfieldClients e' ! nat highestIdx) = highestHeight
                \<and> clientIdx e' =
                    (if Height (greenfieldClients e' ! nat (clientIdx monitor_pool))
                          + FallBehindThreshold example_constants < highestHeight
                     then highestIdx else clientIdx monitor_pool))" ..
  then obtain w' where all: "UpdateClientLoop_tick example_constants monitor_pool monitor_world = (Returns e', w')
         \<and> length (greenfieldClients e') = length (greenfieldClients monitor_pool)
         \<and> (case highest (greenfieldClients e') of
              (highestHeight, highestIdx) \<Rightarrow>
                (\<forall>c\<in>set (greenfieldClients e'). Height c \<le> highestHeight)
                \<and> 0 \<le> highestIdx \<and> highestIdx < int (length (greenfieldClients e'))
                \<and> Height (greenfieldClients e' ! nat highestIdx) = highestHeight
                \<and> clientIdx e' =
                    (if Height (greenfieldClients e' ! nat (clientIdx monitor_pool))
                          + FallBehindThreshold example_constants < highestHeight
                     then highestIdx else clientIdx monitor_pool))" ..
  from all have r: "UpdateClientLoop_tick example_constants monitor_pool monitor_world = (Returns e', w')"
    by (rule conjunct1)
  note i = all [THEN conjunct2]
  from r monitor_tick_result
  have e': "e' = monitor_pool\<lparr>clientIdx := 1,
                 greenfieldClients := [example_client ''seed-a'' 100 1001,
                                       example_client ''seed-b'' 106 1003]\<rparr>" by simp
  have a: "map Height (greenfieldClients e') = [100, 106]" "highest (greenfieldClients e') = (106, 1)"
    unfolding e' by (simp_all add: example_client_def highest_def)
  from i a have c: "clientIdx e' = 1"
    by (simp add: e')
  let ?lo = "example_executor [example_client ''seed-a'' 100 1000, example_client ''seed-b'' 104 1000] []"
  let ?hi = "example_executor [example_client ''seed-a'' 100 1000, example_client ''seed-b'' 106 1000] []"
  have lo: "clientIdx ?lo = 0
        \<and> map Height (greenfieldClients ?lo) = [100, 100 + FallBehindThreshold example_constants - 1]
        \<and> unat (FallBehindThreshold example_constants) + 101 < 2 ^ 64"
    by (simp add: example_executor_def example_client_def example_constants_def)
  have hi: "clientIdx ?hi = 0
        \<and> map Height (greenfieldClients ?hi) = [100, 100 + FallBehindThreshold example_constants + 1]
        \<and> unat (FallBehindThreshold example_constants) + 101 < 2 ^ 64"
    by (simp add: example_executor_def example_client_def example_constants_def)
  note d1 = t [where e = ?lo, THEN conjunct2, THEN conjunct1, THEN mp, OF lo]
  note d2 = t [where e = ?hi, THEN conjunct2, THEN conjunct2, THEN mp, OF hi]
  have ex: "\<exists>e' w'. UpdateClientLoop_tick example_constants monitor_pool monitor_world = (Returns e', w')
          \<and> map Height (greenfieldClients e') = [100, 106]
          \<and> highest (greenfieldClients e') = (106, 1)
          \<and> clientIdx e' = 1"
    using r a c by (intro exI [of _ e'] exI [of _ w']) simp
  note v1 = v [THEN conjunct1] and v2 = v [THEN conjunct2]
  show ?thesis by (intro conjI; fact v1 v2 ex d1 d2)
qed

lemma update_same_index: "clientIdx e = v \<Longrightarrow> e\<lparr>clientIdx := v\<rparr> = e"
  by (cases e) simp

lemma decide_tie:
  assumes "clientIdx e = 0" and "map Height (greenfieldClients e) = [200, 200]"
  shows "highest (greenfieldClients e) = (200, 0)" and "UpdateClientLoop_decide k e = Returns e"
proof -
  from assms(2) obtain c1 c2 where cs: "greenfieldClients e = [c1, c2]"
    and h: "Height c1 = 200" "Height c2 = 200"
    by (auto simp: map_eq_Cons_conv)
  show hh: "highest (greenfieldClients e) = (200, 0)" by (simp add: cs highest_def h)
  show "UpdateClientLoop_decide k e = Returns e"
    using assms(1) cs hh update_same_index [OF assms(1)] by (simp add: decide_valid)
qed

text \<open>
  Claim C5. The position found by the search is the lowest one among the clients that
  report the maximum height: no client at an earlier position reports it. With the two
  heights \<open>[200, 200]\<close> and the first client active, the search finds position 0 and the
  decision leaves the executor as it is, whatever the threshold.
\<close>

theorem highest_first_of_equal:
  "(\<forall>i<length cs. Height (cs ! i) = fst (highest cs) \<longrightarrow> snd (highest cs) \<le> int i)
   \<and> (cs \<noteq> [] \<longrightarrow>
        0 \<le> snd (highest cs) \<and> snd (highest cs) < int (length cs)
        \<and> Height (cs ! nat (snd (highest cs))) = fst (highest cs)
        \<and> (\<forall>c\<in>set cs. Height c \<le> fst (highest cs)))
   \<and> (clientIdx e = 0 \<and> map Height (greenfieldClients e) = [200, 200] \<longrightarrow>
        highest (greenfieldClients e) = (200, 0) \<and> UpdateClientLoop_decide k e = Returns e)"
proof (intro conjI impI allI)
  fix i assume "i < length cs" "Height (cs ! i) = fst (highest cs)"
  then show "snd (highest cs) \<le> int i"
    using highest_lowest_index [of cs "fst (highest cs)" "snd (highest cs)" i] by simp
next
  assume ne: "cs \<noteq> []"
  have h: "highest cs = (fst (highest cs), snd (highest cs))" by simp
  from highest_spec [OF h ne]
  show "0 \<le> snd (highest cs)" "snd (highest cs) < int (length cs)"
    "Height (cs ! nat (snd (highest cs))) = fst (highest cs)"
    "\<forall>c\<in>set cs. Height c \<le> fst (highest cs)" by simp_all
next
  assume a: "clientIdx e = 0 \<and> map Height (greenfieldClients e) = [200, 200]"
  then show "highest (greenfieldClients e) = (200, 0)" "UpdateClientLoop_decide k e = Returns e"
    using decide_tie by simp_all
qed

theorem highest_first_of_equal_witness:
  "Height ([example_client ''A'' 200 1000, example_client ''B'' 200 1000] ! 1)
     = fst (highest [example_client ''A'' 200 1000, example_client ''B'' 200 1000])
   \<and> snd (highest [example_client ''A'' 200 1000, example_client ''B'' 200 1000]) = 0
   \<and> clientIdx (example_executor [example_client ''A'' 200 1000, example_client ''B'' 200 1000] []) = 0
   \<and> UpdateClientLoop_decide example_constants
        (example_executor [example_client ''A'' 200 1000, example_client ''B'' 200 1000] [])
       = Returns (example_executor [example_client ''A'' 200 1000, example_client ''B'' 200 1000] [])"
proof -
  let ?cs = "[example_client ''A'' 200 1000, example_client ''B'' 200 1000]"
  let ?e = "example_executor ?cs []"
  have a: "clientIdx ?e = 0 \<and> map Height (greenfieldClients ?e) = [200, 200]"
    by (simp add: example_executor_def example_client_def)
  have g: "greenfieldClients ?e = ?cs" by (simp add: example_executor_def)
  note t = highest_first_of_equal [where cs = ?cs and e = ?e and k = example_constants]
  from t [THEN conjunct2, THEN conjunct2, THEN mp, OF a]
  have d: "highest ?cs = (200, 0)" "UpdateClientLoop_decide example_constants ?e = Returns ?e"
    unfolding g by simp_all
  have ne: "?cs \<noteq> []" by simp
  from t [THEN conjunct2, THEN conjunct1, THEN mp, OF ne]
  have "Height (?cs ! nat (snd (highest ?cs))) = fst (highest ?cs)" by simp
  have h1: "Height (?cs ! 1) = fst (highest ?cs)" using d(1) by (simp add: example_client_def)
  have "1 < length ?cs" by simp
  from t [THEN conjunct1, rule_format, OF this h1] have "snd (highest ?cs) \<le> int 1" .
  show ?thesis using a d h1 by simp
qed


section \<open>The health monitor loop: polling the clients\<close>

lemma time_Now_simps [simp]:
  "fst (time_Now w) = clock w (clock_reads w)"
  "nodes (snd (time_Now w)) = nodes w" "logged (snd (time_Now w)) = logged w"
  "alerts (snd (time_Now w)) = alerts w" "clock (snd (time_Now w)) = clock w"
  "clock_reads (snd (time_Now w)) = Suc (clock_reads w)"
  by (simp_all add: time_Now_def)

lemma time_Since_simps [simp]:
  "fst (time_Since t w) = clock w (clock_reads w) - t"
  "snd (time_Since t w) = snd (time_Now w)"
  by (simp_all add: time_Since_def time_Now_def)

lemma latestHeight_attempt_world:
  "snd (snd (latestHeight_attempt client (lh, w))) = request client w"
  by (simp add: latestHeight_attempt_def getLatestBlockHeight_def Status_def split: sum.splits)

lemma latestHeight_onRetry_apply:
  "latestHeight_onRetry n err (lh, w) = (lh, Logger (Info_retry_failed (n + 1)) w)"
  by (simp add: latestHeight_onRetry_def)

text \<open>The retry loop touches the log and the request count of its node, nothing else.\<close>

lemma retry_loop_frame:
  "retry_loop m n (latestHeight_attempt client) latestHeight_onRetry lastErr (lh, w) = (r, (lh', w')) \<Longrightarrow>
   alerts w' = alerts w \<and> clock w' = clock w \<and> clock_reads w' = clock_reads w
   \<and> (\<exists>l. logged w' = logged w @ l)"
proof (induction m arbitrary: n lastErr lh w)
  case 0 then show ?case by simp
next
  case (Suc m)
  obtain r1 h1 w1 where a: "latestHeight_attempt client (lh, w) = (r1, (h1, w1))"
    by (cases "latestHeight_attempt client (lh, w)") auto
  from latestHeight_attempt_world [of client lh w] a have w1: "w1 = request client w" by simp
  show ?case
  proof (cases r1)
    case None
    with Suc.prems a w1 have "w' = request client w" by simp
    then show ?thesis by simp
  next
    case (Some err)
    with Suc.prems a have "retry_loop m (Suc n) (latestHeight_attempt client) latestHeight_onRetry
        (Some err) (h1, Logger (Info_retry_failed (n + 1)) w1) = (r, (lh', w'))"
      by (simp add: latestHeight_onRetry_apply)
    from Suc.IH [OF this] w1 show ?thesis by auto
  qed
qed

lemma getLatestBlockHeightWithRetry_frame:
  "getLatestBlockHeightWithRetry k client w = (r, w') \<Longrightarrow>
   alerts w' = alerts w \<and> clock w' = clock w \<and> clock_reads w' = clock_reads w
   \<and> (\<exists>l. logged w' = logged w @ l)"
  by (auto simp: getLatestBlockHeightWithRetry_def retry_Do_def split: prod.splits
      dest!: retry_loop_frame)

text \<open>One poll, written with projections.\<close>

lemma poll_eq:
  "UpdateClientLoop_poll k c w =
     (let w2 = (if clock w (clock_reads w) - UpdatedAt c > DataSeedDenyServiceThreshold k
                then Logger (Error_msg (''data seed '' @ Provider c @ '' is not accessable''))
                       (snd (time_Now w))
                else snd (time_Now w));
          r = getLatestBlockHeightWithRetry k (rpcClient c) w2
      in case snd (fst r) of
           Some err \<Rightarrow> (c, Logger (Error_get_height err) (snd r))
         | None \<Rightarrow> (c\<lparr>Height := fst (fst r), UpdatedAt := fst (time_Now (snd r))\<rparr>,
                    snd (time_Now (snd r))))"
  by (simp add: UpdateClientLoop_poll_def time_Since_def time_Now_def Let_def
      split: prod.splits option.splits)

text \<open>One poll: the alert sink is untouched, the log grows, a stale client is logged.\<close>

lemma poll_frame:
  assumes "UpdateClientLoop_poll k c w = (c', w')"
  shows "alerts w' = alerts w" and "\<exists>l. logged w' = logged w @ l"
    and "clock w (clock_reads w) - UpdatedAt c > DataSeedDenyServiceThreshold k \<Longrightarrow>
         Error_msg (''data seed '' @ Provider c @ '' is not accessable'') \<in> set (logged w')"
proof -
  let ?w1 = "snd (time_Now w)"
  let ?msg = "Error_msg (''data seed '' @ Provider c @ '' is not accessable'')"
  let ?w2 = "if clock w (clock_reads w) - UpdatedAt c > DataSeedDenyServiceThreshold k
             then Logger ?msg ?w1 else ?w1"
  obtain r w3 where g: "getLatestBlockHeightWithRetry k (rpcClient c) ?w2 = (r, w3)"
    by (cases "getLatestBlockHeightWithRetry k (rpcClient c) ?w2")
  note f = getLatestBlockHeightWithRetry_frame [OF g]
  have w': "w' = (case snd r of Some err \<Rightarrow> Logger (Error_get_height err) w3 | None \<Rightarrow> snd (time_Now w3))"
    using assms g unfolding poll_eq Let_def by (auto split: option.splits)
  from f obtain l where l: "logged w3 = logged ?w2 @ l" by blast
  show "alerts w' = alerts w" using f by (simp add: w' split: option.splits)
  show "\<exists>l. logged w' = logged w @ l" using l by (simp add: w' split: option.splits)
  assume "clock w (clock_reads w) - UpdatedAt c > DataSeedDenyServiceThreshold k"
  then show "?msg \<in> set (logged w')" using l by (simp add: w' split: option.splits)
qed

lemma collect_frame:
  "UpdateClientLoop_collect k cs w = (cs', w') \<Longrightarrow>
   alerts w' = alerts w \<and> (\<exists>l. logged w' = logged w @ l)"
proof (induction cs arbitrary: w cs' w')
  case Nil then show ?case by simp
next
  case (Cons c cs)
  obtain c1 w1 where p: "UpdateClientLoop_poll k c w = (c1, w1)"
    by (cases "UpdateClientLoop_poll k c w")
  obtain cs1 w2 where r: "UpdateClientLoop_collect k cs w1 = (cs1, w2)"
    by (cases "UpdateClientLoop_collect k cs w1")
  from Cons.prems p r have "w' = w2" by simp
  with Cons.IH [OF r] poll_frame(1,2) [OF p] show ?case by auto
qed

text \<open>The client at position \<open>i\<close> after the loop is the poll of the client at \<open>i\<close>.\<close>

lemma collect_nth:
  "UpdateClientLoop_collect k cs w = (cs', w') \<Longrightarrow> i < length cs \<Longrightarrow>
   UpdateClientLoop_poll k (cs ! i) (snd (UpdateClientLoop_collect k (take i cs) w)) = (ci, wi) \<Longrightarrow>
   cs' ! i = ci \<and> (\<exists>l. logged w' = logged wi @ l)"
proof (induction cs arbitrary: w cs' w' i)
  case Nil then show ?case by simp
next
  case (Cons c cs)
  obtain c1 w1 where p: "UpdateClientLoop_poll k c w = (c1, w1)"
    by (cases "UpdateClientLoop_poll k c w")
  obtain cs1 w2 where r: "UpdateClientLoop_collect k cs w1 = (cs1, w2)"
    by (cases "UpdateClientLoop_collect k cs w1")
  from Cons.prems(1) p r have e: "cs' = c1 # cs1" "w' = w2" by simp_all
  show ?case
  proof (cases i)
    case 0
    with Cons.prems(3) p have "ci = c1" "wi = w1" by simp_all
    with e collect_frame [OF r] 0 show ?thesis by simp
  next
    case (Suc i')
    with Cons.prems(2) have i': "i' < length cs" by simp
    have "snd (UpdateClientLoop_collect k (take i (c # cs)) w)
            = snd (UpdateClientLoop_collect k (take i' cs) w1)"
      using Suc p by (simp split: prod.splits)
    with Cons.prems(3) Suc
    have "UpdateClientLoop_poll k (cs ! i') (snd (UpdateClientLoop_collect k (take i' cs) w1)) = (ci, wi)"
      by simp
    from Cons.IH [OF r i' this] e Suc show ?thesis by simp
  qed
qed

lemma tick_world:
  "snd (UpdateClientLoop_tick k e w)
     = snd (UpdateClientLoop_collect k (greenfieldClients e) (Logger Info_monitor_start w))"
  by (simp add: UpdateClientLoop_tick_def split: prod.splits)

lemma world_before_0 [simp]: "world_before k cs w 0 = Logger Info_monitor_start w"
  by (simp add: world_before_def)

text \<open>What one poll appends to the log holds the message of a stale client.\<close>

lemma poll_logs:
  assumes "UpdateClientLoop_poll k c w = (c', w')"
  shows "\<exists>l. logged w' = logged w @ l
           \<and> (DataSeedDenyServiceThreshold k < clock w (clock_reads w) - UpdatedAt c \<longrightarrow>
                Error_msg (''data seed '' @ Provider c @ '' is not accessable'') \<in> set l)"
proof -
  let ?w1 = "snd (time_Now w)"
  let ?msg = "Error_msg (''data seed '' @ Provider c @ '' is not accessable'')"
  let ?stale = "DataSeedDenyServiceThreshold k < clock w (clock_reads w) - UpdatedAt c"
  let ?w2 = "if ?stale then Logger ?msg ?w1 else ?w1"
  obtain r w3 where g: "getLatestBlockHeightWithRetry k (rpcClient c) ?w2 = (r, w3)"
    by (cases "getLatestBlockHeightWithRetry k (rpcClient c) ?w2")
  from getLatestBlockHeightWithRetry_frame [OF g]
  obtain l where l: "logged w3 = logged ?w2 @ l" by blast
  have w': "w' = (case snd r of Some err \<Rightarrow> Logger (Error_get_height err) w3 | None \<Rightarrow> snd (time_Now w3))"
    using assms g unfolding poll_eq Let_def by (auto split: option.splits)
  let ?tail = "case snd r of Some err \<Rightarrow> [Error_get_height err] | None \<Rightarrow> []"
  let ?l = "(if ?stale then [?msg] else []) @ l @ ?tail"
  have "logged w' = logged w @ ?l" using l by (simp add: w' split: option.splits)
  moreover have "?stale \<longrightarrow> ?msg \<in> set ?l" by simp
  ultimately show ?thesis by blast
qed

lemma tick_stale:
  assumes "i < length (greenfieldClients e)"
    and "DataSeedDenyServiceThreshold k
           < clock (world_before k (greenfieldClients e) w i)
               (clock_reads (world_before k (greenfieldClients e) w i))
             - UpdatedAt (greenfieldClients e ! i)"
  shows "\<exists>l. logged (snd (UpdateClientLoop_tick k e w)) = logged w @ l
           \<and> Error_msg (''data seed '' @ Provider (greenfieldClients e ! i) @ '' is not accessable'')
                \<in> set l"
proof -
  let ?cs = "greenfieldClients e" and ?w0 = "Logger Info_monitor_start w"
  let ?msg = "Error_msg (''data seed '' @ Provider (?cs ! i) @ '' is not accessable'')"
  obtain cs' w' where c: "UpdateClientLoop_collect k ?cs ?w0 = (cs', w')"
    by (cases "UpdateClientLoop_collect k ?cs ?w0")
  obtain csb wb where b: "UpdateClientLoop_collect k (take i ?cs) ?w0 = (csb, wb)"
    by (cases "UpdateClientLoop_collect k (take i ?cs) ?w0")
  then have wb: "world_before k ?cs w i = wb" by (simp add: world_before_def)
  obtain ci wi where p: "UpdateClientLoop_poll k (?cs ! i) wb = (ci, wi)"
    by (cases "UpdateClientLoop_poll k (?cs ! i) wb")
  from collect_frame [OF b] obtain l1 where l1: "logged wb = logged ?w0 @ l1" by blast
  from poll_logs [OF p] assms(2) [unfolded wb]
  obtain l2 where l2: "logged wi = logged wb @ l2" and m: "?msg \<in> set l2" by blast
  have "UpdateClientLoop_poll k (?cs ! i) (snd (UpdateClientLoop_collect k (take i ?cs) ?w0)) = (ci, wi)"
    using p b by simp
  from collect_nth [OF c assms(1) this]
  obtain l3 where l3: "logged w' = logged wi @ l3" by blast
  let ?l = "Info_monitor_start # l1 @ l2 @ l3"
  have "logged (snd (UpdateClientLoop_tick k e w)) = logged w @ ?l"
    using c l1 l2 l3 by (simp add: tick_world)
  moreover have "?msg \<in> set ?l" using m by simp
  ultimately show ?thesis by blast
qed

lemma tick_log_grows:
  "\<exists>l. logged (snd (UpdateClientLoop_tick k e w)) = logged w @ l"
proof -
  obtain cs' w' where c: "UpdateClientLoop_collect k (greenfieldClients e) (Logger Info_monitor_start w) = (cs', w')"
    by (cases "UpdateClientLoop_collect k (greenfieldClients e) (Logger Info_monitor_start w)")
  from collect_frame [OF c] obtain l where "logged w' = logged (Logger Info_monitor_start w) @ l"
    by blast
  with c have "logged (snd (UpdateClientLoop_tick k e w)) = logged w @ (Info_monitor_start # l)"
    by (simp add: tick_world)
  then show ?thesis by blast
qed

text \<open>
  Claim C2, as the code has it. Every tick appends to the log, and for every client whose
  \<open>UpdatedAt\<close> is older than the deny-service threshold when the loop reaches it, the
  error message naming its provider is among the entries this tick appends. The alert
  sink is the same after the tick as before it: the call that would send the message is
  disabled in the code.
\<close>

theorem UpdateClientLoop_tick_stale_logged:
  "alerts (snd (UpdateClientLoop_tick k e w)) = alerts w
   \<and> (\<exists>l. logged (snd (UpdateClientLoop_tick k e w)) = logged w @ l
         \<and> (\<forall>i<length (greenfieldClients e).
               DataSeedDenyServiceThreshold k
                 < clock (world_before k (greenfieldClients e) w i)
                     (clock_reads (world_before k (greenfieldClients e) w i))
                   - UpdatedAt (greenfieldClients e ! i) \<longrightarrow>
               Error_msg (''data seed '' @ Provider (greenfieldClients e ! i) @ '' is not accessable'')
                 \<in> set l))"
proof (rule conjI)
  obtain cs' w' where c: "UpdateClientLoop_collect k (greenfieldClients e) (Logger Info_monitor_start w) = (cs', w')"
    by (cases "UpdateClientLoop_collect k (greenfieldClients e) (Logger Info_monitor_start w)")
  from collect_frame [OF c] c show "alerts (snd (UpdateClientLoop_tick k e w)) = alerts w"
    by (simp add: tick_world)
next
  from tick_log_grows [of k e w]
  obtain l where l: "logged (snd (UpdateClientLoop_tick k e w)) = logged w @ l" by blast
  have "Error_msg (''data seed '' @ Provider (greenfieldClients e ! i) @ '' is not accessable'') \<in> set l"
    if "i < length (greenfieldClients e)"
      and "DataSeedDenyServiceThreshold k
                 < clock (world_before k (greenfieldClients e) w i)
                     (clock_reads (world_before k (greenfieldClients e) w i))
                   - UpdatedAt (greenfieldClients e ! i)" for i
  proof -
    from tick_stale [OF that] obtain l' where
      "logged (snd (UpdateClientLoop_tick k e w)) = logged w @ l'"
      and m: "Error_msg (''data seed '' @ Provider (greenfieldClients e ! i) @ '' is not accessable'')
                \<in> set l'" by blast
    with l have "l' = l" by simp
    with m show ?thesis by simp
  qed
  with l show "\<exists>l. logged (snd (UpdateClientLoop_tick k e w)) = logged w @ l
         \<and> (\<forall>i<length (greenfieldClients e).
               DataSeedDenyServiceThreshold k
                 < clock (world_before k (greenfieldClients e) w i)
                     (clock_reads (world_before k (greenfieldClients e) w i))
                   - UpdatedAt (greenfieldClients e ! i) \<longrightarrow>
               Error_msg (''data seed '' @ Provider (greenfieldClients e ! i) @ '' is not accessable'')
                 \<in> set l)"
    by blast
qed

text \<open>A world whose log already holds the message of the stale client.\<close>

theorem UpdateClientLoop_tick_stale_logged_witness:
  "DataSeedDenyServiceThreshold example_constants
     < clock (Logger (Error_msg ''data seed seed-a is not accessable'') monitor_world)
         (clock_reads (Logger (Error_msg ''data seed seed-a is not accessable'') monitor_world))
       - UpdatedAt (greenfieldClients stale_pool ! 0)
   \<and> (\<exists>l. logged (snd (UpdateClientLoop_tick example_constants stale_pool
                         (Logger (Error_msg ''data seed seed-a is not accessable'') monitor_world)))
             = [Error_msg ''data seed seed-a is not accessable''] @ l
          \<and> Error_msg ''data seed seed-a is not accessable'' \<in> set l)
   \<and> alerts (snd (UpdateClientLoop_tick example_constants stale_pool
                    (Logger (Error_msg ''data seed seed-a is not accessable'') monitor_world))) = []"
proof -
  let ?w = "Logger (Error_msg ''data seed seed-a is not accessable'') monitor_world"
  have s: "DataSeedDenyServiceThreshold example_constants
     < clock ?w (clock_reads ?w) - UpdatedAt (greenfieldClients stale_pool ! 0)"
    by (simp add: example_constants_def monitor_world_def example_world_def stale_pool_def
        example_executor_def example_client_def)
  then have s': "DataSeedDenyServiceThreshold example_constants
           < clock (world_before example_constants (greenfieldClients stale_pool) ?w 0)
               (clock_reads (world_before example_constants (greenfieldClients stale_pool) ?w 0))
             - UpdatedAt (greenfieldClients stale_pool ! 0)"
    by simp
  have l0: "0 < length (greenfieldClients stale_pool)"
    by (simp add: stale_pool_def example_executor_def)
  have p: "Provider (greenfieldClients stale_pool ! 0) = ''seed-a''"
    by (simp add: stale_pool_def example_executor_def example_client_def)
  have a: "alerts ?w = []" "logged ?w = [Error_msg ''data seed seed-a is not accessable'']"
    by (simp_all add: monitor_world_def example_world_def)
  note t = UpdateClientLoop_tick_stale_logged [of example_constants stale_pool ?w]
  from t [THEN conjunct2] obtain l where
    l: "logged (snd (UpdateClientLoop_tick example_constants stale_pool ?w)) = logged ?w @ l"
    and all: "\<forall>i<length (greenfieldClients stale_pool).
               DataSeedDenyServiceThreshold example_constants
                 < clock (world_before example_constants (greenfieldClients stale_pool) ?w i)
                     (clock_reads (world_before example_constants (greenfieldClients stale_pool) ?w i))
                   - UpdatedAt (greenfieldClients stale_pool ! i) \<longrightarrow>
               Error_msg (''data seed '' @ Provider (greenfieldClients stale_pool ! i) @ '' is not accessable'')
                 \<in> set l"
    by blast
  from all [rule_format, OF l0 s'] have m: "Error_msg ''data seed seed-a is not accessable'' \<in> set l"
    by (simp add: p)
  have ex: "\<exists>l. logged (snd (UpdateClientLoop_tick example_constants stale_pool ?w))
             = [Error_msg ''data seed seed-a is not accessable''] @ l
          \<and> Error_msg ''data seed seed-a is not accessable'' \<in> set l"
    using l m unfolding a(2) by blast
  have al: "alerts (snd (UpdateClientLoop_tick example_constants stale_pool ?w)) = []"
    using t [THEN conjunct1] a(1) by simp
  show ?thesis by (intro conjI; fact s ex al)
qed

text \<open>
  Claim C2, as stated, fails: a pool with a stale client, whose tick logs the message
  and sends nothing to the alert sink.
\<close>

theorem UpdateClientLoop_tick_sends_no_alert:
  "DataSeedDenyServiceThreshold example_constants
     < clock monitor_world (clock_reads monitor_world) - UpdatedAt (greenfieldClients stale_pool ! 0)
   \<and> logged (snd (UpdateClientLoop_tick example_constants stale_pool monitor_world))
       = [Info_monitor_start, Error_msg ''data seed seed-a is not accessable'']
   \<and> alerts (snd (UpdateClientLoop_tick example_constants stale_pool monitor_world)) = []"
  by (simp add: tick_eval stale_pool_def monitor_world_def)


section \<open>The health monitor loop: failed queries\<close>



text \<open>A tick keeps the active index valid.\<close>

lemma tick_keeps_valid:
  assumes "0 \<le> clientIdx e" and "clientIdx e < int (length (greenfieldClients e))"
  shows "\<exists>e' w'. UpdateClientLoop_tick k e w = (Returns e', w')
     \<and> 0 \<le> clientIdx e' \<and> clientIdx e' < int (length (greenfieldClients e'))
     \<and> length (greenfieldClients e') = length (greenfieldClients e)"
proof -
  from tick_valid [OF assms, of k w] obtain e' w' where
    t: "UpdateClientLoop_tick k e w = (Returns e', w')"
    and l: "length (greenfieldClients e') = length (greenfieldClients e)"
    and i: "clientIdx e' =
         (if Height (greenfieldClients e' ! nat (clientIdx e)) + FallBehindThreshold k
               < fst (highest (greenfieldClients e'))
          then snd (highest (greenfieldClients e')) else clientIdx e)"
    by blast
  from assms l have ne: "greenfieldClients e' \<noteq> []" by auto
  have h: "highest (greenfieldClients e') = (fst (highest (greenfieldClients e')), snd (highest (greenfieldClients e')))"
    by simp
  from highest_spec(1,2) [OF h ne] i assms l
  have "0 \<le> clientIdx e' \<and> clientIdx e' < int (length (greenfieldClients e'))"
    by (simp split: if_splits)
  with t l show ?thesis by blast
qed

lemma loop_keeps_valid:
  "0 \<le> clientIdx e \<Longrightarrow> clientIdx e < int (length (greenfieldClients e)) \<Longrightarrow>
   \<exists>e' w'. UpdateClientLoop n k e w = (Returns e', w')
     \<and> 0 \<le> clientIdx e' \<and> clientIdx e' < int (length (greenfieldClients e'))
     \<and> length (greenfieldClients e') = length (greenfieldClients e)"
proof (induction n arbitrary: e w)
  case 0 then show ?case by simp
next
  case (Suc n)
  from tick_keeps_valid [OF Suc.prems, of k w] obtain e1 w1 where
    t: "UpdateClientLoop_tick k e w = (Returns e1, w1)"
    and v: "0 \<le> clientIdx e1" "clientIdx e1 < int (length (greenfieldClients e1))"
    and l: "length (greenfieldClients e1) = length (greenfieldClients e)"
    by blast
  from Suc.IH [OF v, of w1] t l show ?case by simp
qed





section \<open>The active index\<close>

lemma initGreenfieldClients_length:
  "initGreenfieldClients rpcAddrs grpcAddrs clients w = (Returns cs, w') \<Longrightarrow>
   length cs = length clients + length rpcAddrs"
proof (induction rpcAddrs grpcAddrs clients w rule: initGreenfieldClients.induct)
  case (1 grpcAddrs clients w)
  then show ?case by simp
next
  case (2 rpcAddr rpcAddrs clients w)
  then show ?case by simp
next
  case (3 rpcAddr rpcAddrs grpcAddr grpcAddrs clients w)
  from "3.prems" obtain conn where g: "grpcConn grpcAddr w = Returns conn"
    by (cases "grpcConn grpcAddr w") auto
  from "3.prems" g obtain client where n: "NewRpcClient rpcAddr w = Returns client"
    by (cases "NewRpcClient rpcAddr w") auto
  obtain now w1 where t: "time_Now w = (now, w1)" by (cases "time_Now w")
  from "3.prems" g n t
  have "initGreenfieldClients rpcAddrs grpcAddrs
          (clients @ [\<lparr>rpcClient = client, Provider = rpcAddr, Height = 0, UpdatedAt = now\<rparr>]) w1
        = (Returns cs, w')" by simp
  from "3.IH" [OF g n t [symmetric] this] show ?case by simp
qed

lemma NewGreenfieldExecutor_pool:
  assumes "NewGreenfieldExecutor ks cfg w = (Returns e, w')"
  shows "clientIdx e = 0" and "length (greenfieldClients e) = length (RPCAddrs cfg)"
    and "validators e = []"
proof -
  from assms obtain privKey where k: "getGreenfieldPrivateKey ks cfg = Returns privKey"
    by (cases "getGreenfieldPrivateKey ks cfg") (auto simp: NewGreenfieldExecutor_def)
  from assms k obtain cs where
    i: "initGreenfieldClients (RPCAddrs cfg) (GRPCAddrs cfg) [] w = (Returns cs, w')"
    and e: "e = \<lparr>clientIdx = 0, greenfieldClients = cs, privateKey = privKey,
                 address = Address_of ks privKey, validators = []\<rparr>"
    by (auto simp: NewGreenfieldExecutor_def split: prod.splits outcome.splits)
  from initGreenfieldClients_length [OF i] e
  show "clientIdx e = 0" "length (greenfieldClients e) = length (RPCAddrs cfg)" "validators e = []"
    by simp_all
qed

text \<open>A tick changes the active index only to the highest client, and only past the margin.\<close>

lemma tick_changes_index:
  assumes "0 \<le> clientIdx e" and "clientIdx e < int (length (greenfieldClients e))"
    and "UpdateClientLoop_tick k e w = (Returns e', w')"
    and "clientIdx e' \<noteq> clientIdx e"
  shows "clientIdx e' = snd (highest (greenfieldClients e'))"
    and "Height (greenfieldClients e' ! nat (clientIdx e)) + FallBehindThreshold k
           < Height (greenfieldClients e' ! nat (clientIdx e'))"
proof -
  from tick_valid [OF assms(1,2), of k w] assms(3) have
    l: "length (greenfieldClients e') = length (greenfieldClients e)"
    and i: "clientIdx e' =
         (if Height (greenfieldClients e' ! nat (clientIdx e)) + FallBehindThreshold k
               < fst (highest (greenfieldClients e'))
          then snd (highest (greenfieldClients e')) else clientIdx e)"
    by auto
  from i assms(4) have c: "Height (greenfieldClients e' ! nat (clientIdx e)) + FallBehindThreshold k
               < fst (highest (greenfieldClients e'))"
    and s: "clientIdx e' = snd (highest (greenfieldClients e'))"
    by (auto split: if_splits)
  from assms(1,2) l have ne: "greenfieldClients e' \<noteq> []" by auto
  have h: "highest (greenfieldClients e') = (fst (highest (greenfieldClients e')), snd (highest (greenfieldClients e')))"
    by simp
  from highest_spec(3) [OF h ne] s
  have "Height (greenfieldClients e' ! nat (clientIdx e')) = fst (highest (greenfieldClients e'))"
    by simp
  with c s show "clientIdx e' = snd (highest (greenfieldClients e'))"
    "Height (greenfieldClients e' ! nat (clientIdx e)) + FallBehindThreshold k
           < Height (greenfieldClients e' ! nat (clientIdx e'))" by simp_all
qed

lemma past_margin_unat:
  fixes a b T :: uint64
  assumes "a + T < b" and "unat a + unat T < 2 ^ 64"
  shows "unat a + unat T < unat b"
proof -
  from assms(2) have "unat a + unat T < 2 ^ LENGTH(64)" by simp
  then have "unat (a + T) = unat a + unat T" by (simp only: unat_add_lem)
  with assms(1) show ?thesis by (simp add: word_less_nat_alt)
qed

lemma UpdateCachedLatestValidatorsLoop_tick_frame:
  "UpdateCachedLatestValidatorsLoop_tick e w = (r, e', w') \<Longrightarrow>
   clientIdx e' = clientIdx e \<and> greenfieldClients e' = greenfieldClients e"
  by (auto simp: UpdateCachedLatestValidatorsLoop_tick_def queryLatestValidators_def
      split: prod.splits outcome.splits sum.splits)

text \<open>
  Claim C4, as the code has it. For a pool constructed from a non-empty address list,
  after any number of ticks the active index is a valid position of the pool, whose size
  is the number of addresses. A tick that changes the active index changes it to the
  position of the highest client, and the active client's height plus the threshold, in
  \<open>uint64\<close>, is strictly below that client's height; when the sum does not wrap around,
  the new client's height exceeds the old one's by more than the threshold. The refresh
  loop of the validator cache and the query methods leave the active index and the pool
  as they are.
\<close>

theorem clientIdx_valid_after_ticks:
  "(RPCAddrs cfg \<noteq> [] \<and> NewGreenfieldExecutor ks cfg w0 = (Returns e0, w1) \<longrightarrow>
      (\<forall>n. \<exists>e w. UpdateClientLoop n k e0 w1 = (Returns e, w)
            \<and> 0 \<le> clientIdx e \<and> clientIdx e < int (length (greenfieldClients e))
            \<and> length (greenfieldClients e) = length (RPCAddrs cfg)))
   \<and> (0 \<le> clientIdx e \<and> clientIdx e < int (length (greenfieldClients e))
        \<and> UpdateClientLoop_tick k e w = (Returns e', w') \<and> clientIdx e' \<noteq> clientIdx e \<longrightarrow>
      clientIdx e' = snd (highest (greenfieldClients e'))
      \<and> Height (greenfieldClients e' ! nat (clientIdx e)) + FallBehindThreshold k
           < Height (greenfieldClients e' ! nat (clientIdx e'))
      \<and> (unat (Height (greenfieldClients e' ! nat (clientIdx e))) + unat (FallBehindThreshold k) < 2 ^ 64 \<longrightarrow>
           unat (Height (greenfieldClients e' ! nat (clientIdx e))) + unat (FallBehindThreshold k)
             < unat (Height (greenfieldClients e' ! nat (clientIdx e')))))
   \<and> (case UpdateCachedLatestValidatorsLoop_tick e w of
         (r, e', w') \<Rightarrow> clientIdx e' = clientIdx e \<and> greenfieldClients e' = greenfieldClients e)
   \<and> (case QueryCachedLatestValidators e w of (r, e', w') \<Rightarrow> e' = e)
   \<and> (case GetValidatorsBlsPublicKey e w of (r, e', w') \<Rightarrow> e' = e)
   \<and> (case QueryTendermintLightBlock tm e w height of (r, e', w') \<Rightarrow> e' = e)"
proof (intro conjI impI allI)
  fix n
  assume a: "RPCAddrs cfg \<noteq> [] \<and> NewGreenfieldExecutor ks cfg w0 = (Returns e0, w1)"
  then have c: "NewGreenfieldExecutor ks cfg w0 = (Returns e0, w1)" by simp
  note p = NewGreenfieldExecutor_pool [OF c]
  from a p have v: "0 \<le> clientIdx e0" "clientIdx e0 < int (length (greenfieldClients e0))"
    by simp_all
  from loop_keeps_valid [OF v, of n k w1] p(2)
  show "\<exists>e w. UpdateClientLoop n k e0 w1 = (Returns e, w)
            \<and> 0 \<le> clientIdx e \<and> clientIdx e < int (length (greenfieldClients e))
            \<and> length (greenfieldClients e) = length (RPCAddrs cfg)"
    by auto
next
  assume a: "0 \<le> clientIdx e \<and> clientIdx e < int (length (greenfieldClients e))
        \<and> UpdateClientLoop_tick k e w = (Returns e', w') \<and> clientIdx e' \<noteq> clientIdx e"
  then have a1: "0 \<le> clientIdx e" and a2: "clientIdx e < int (length (greenfieldClients e))"
    and a3: "UpdateClientLoop_tick k e w = (Returns e', w')" and a4: "clientIdx e' \<noteq> clientIdx e"
    by simp_all
  note c = tick_changes_index [OF a1 a2 a3 a4]
  show "clientIdx e' = snd (highest (greenfieldClients e'))" by (rule c(1))
  show "Height (greenfieldClients e' ! nat (clientIdx e)) + FallBehindThreshold k
           < Height (greenfieldClients e' ! nat (clientIdx e'))" by (rule c(2))
  assume "unat (Height (greenfieldClients e' ! nat (clientIdx e))) + unat (FallBehindThreshold k) < 2 ^ 64"
  with c(2) show "unat (Height (greenfieldClients e' ! nat (clientIdx e))) + unat (FallBehindThreshold k)
             < unat (Height (greenfieldClients e' ! nat (clientIdx e')))"
    by (rule past_margin_unat)
next
  show "case UpdateCachedLatestValidatorsLoop_tick e w of
         (r, e', w') \<Rightarrow> clientIdx e' = clientIdx e \<and> greenfieldClients e' = greenfieldClients e"
    by (auto dest: UpdateCachedLatestValidatorsLoop_tick_frame)
  show "case QueryCachedLatestValidators e w of (r, e', w') \<Rightarrow> e' = e"
    by (auto dest: QueryCachedLatestValidators_frame)
  show "case GetValidatorsBlsPublicKey e w of (r, e', w') \<Rightarrow> e' = e"
    by (auto dest: GetValidatorsBlsPublicKey_frame)
  show "case QueryTendermintLightBlock tm e w height of (r, e', w') \<Rightarrow> e' = e"
    by (auto dest: QueryTendermintLightBlock_frame)
qed

text \<open>Evaluating the construction on a concrete configuration.\<close>

lemmas construct_eval = NewGreenfieldExecutor_def getGreenfieldPrivateKey_def grpcConn_def
  NewRpcClient_def time_Now_def example_keystore_def example_config_def example_world_def
  example_executor_def example_client_def

text \<open>
  Claim C4, as stated, fails. The executor constructed from an empty address list has the
  active index 0 and no client: the index is out of range and the first tick panics. And
  with two nodes at the heights \<open>2^64 - 3\<close> and \<open>2^64 - 1\<close> and a threshold of 5, the sum
  wraps around and the tick switches to a client that is ahead by 2 only.
\<close>

theorem clientIdx_invalid_on_empty_pool:
  "fst (NewGreenfieldExecutor example_keystore (example_config []) monitor_world)
     = Returns (example_executor [] [])
   \<and> \<not> clientIdx (example_executor [] []) < int (length (greenfieldClients (example_executor [] [])))
   \<and> fst (UpdateClientLoop_tick example_constants (example_executor [] []) monitor_world)
       = Panics IndexOutOfRange
   \<and> fst (UpdateClientLoop_tick example_constants monitor_pool wrap_world)
       = Returns (monitor_pool\<lparr>clientIdx := 1,
                   greenfieldClients := [example_client ''seed-a'' 18446744073709551613 1001,
                                         example_client ''seed-b'' 18446744073709551615 1003]\<rparr>)
   \<and> unat (18446744073709551613 :: uint64) + unat (FallBehindThreshold example_constants)
        > unat (18446744073709551615 :: uint64)"
  by (simp add: construct_eval tick_eval monitor_world_def monitor_pool_def wrap_world_def)

lemma example_construction:
  "fst (NewGreenfieldExecutor example_keystore (example_config [''seed-a'', ''seed-b'']) monitor_world)
     = Returns (example_executor [example_client ''seed-a'' 0 1000, example_client ''seed-b'' 0 1001] [])"
  by (simp add: construct_eval monitor_world_def)

theorem clientIdx_valid_after_ticks_witness:
  "RPCAddrs (example_config [''seed-a'', ''seed-b'']) \<noteq> []
   \<and> fst (NewGreenfieldExecutor example_keystore (example_config [''seed-a'', ''seed-b'']) monitor_world)
       = Returns (example_executor [example_client ''seed-a'' 0 1000, example_client ''seed-b'' 0 1001] [])
   \<and> (\<exists>e w. UpdateClientLoop 2 example_constants
                (example_executor [example_client ''seed-a'' 0 1000, example_client ''seed-b'' 0 1001] [])
                (snd (NewGreenfieldExecutor example_keystore (example_config [''seed-a'', ''seed-b''])
                        monitor_world))
              = (Returns e, w)
          \<and> 0 \<le> clientIdx e \<and> clientIdx e < int (length (greenfieldClients e))
          \<and> length (greenfieldClients e) = 2)
   \<and> clientIdx monitor_pool = 0
   \<and> fst (UpdateClientLoop_tick example_constants monitor_pool monitor_world)
       = Returns (monitor_pool\<lparr>clientIdx := 1,
                   greenfieldClients := [example_client ''seed-a'' 100 1001,
                                         example_client ''seed-b'' 106 1003]\<rparr>)
   \<and> snd (highest [example_client ''seed-a'' 100 1001, example_client ''seed-b'' 106 1003]) = 1
   \<and> unat (100 :: uint64) + unat (FallBehindThreshold example_constants) < unat (106 :: uint64)"
proof -
  let ?cfg = "example_config [''seed-a'', ''seed-b'']"
  let ?e0 = "example_executor [example_client ''seed-a'' 0 1000, example_client ''seed-b'' 0 1001] []"
  let ?w1 = "snd (NewGreenfieldExecutor example_keystore ?cfg monitor_world)"
  let ?x = "monitor_pool\<lparr>clientIdx := 1,
                   greenfieldClients := [example_client ''seed-a'' 100 1001,
                                         example_client ''seed-b'' 106 1003]\<rparr>"
  let ?w' = "snd (UpdateClientLoop_tick example_constants monitor_pool monitor_world)"
  have ne: "RPCAddrs ?cfg \<noteq> []" by (simp add: example_config_def)
  have c: "NewGreenfieldExecutor example_keystore ?cfg monitor_world = (Returns ?e0, ?w1)"
    using example_construction by (simp add: prod_eq_iff)
  have h1: "RPCAddrs ?cfg \<noteq> [] \<and> NewGreenfieldExecutor example_keystore ?cfg monitor_world = (Returns ?e0, ?w1)"
    using ne c by simp
  have l: "length (RPCAddrs ?cfg) = 2" by (simp add: example_config_def)
  note t1 = clientIdx_valid_after_ticks
      [where cfg = ?cfg and ks = example_keystore and ?w0.0 = monitor_world and ?e0.0 = ?e0
         and ?w1.0 = ?w1 and k = example_constants,
       THEN conjunct1, THEN mp, OF h1, rule_format, of 2, unfolded l]
  have m0: "clientIdx monitor_pool = 0" by (simp add: monitor_pool_def example_executor_def)
  have tick: "UpdateClientLoop_tick example_constants monitor_pool monitor_world = (Returns ?x, ?w')"
    using monitor_tick_result by (simp add: prod_eq_iff)
  have h2: "0 \<le> clientIdx monitor_pool
        \<and> clientIdx monitor_pool < int (length (greenfieldClients monitor_pool))
        \<and> UpdateClientLoop_tick example_constants monitor_pool monitor_world = (Returns ?x, ?w')
        \<and> clientIdx ?x \<noteq> clientIdx monitor_pool"
    using tick by (simp add: monitor_pool_def example_executor_def)
  note t2 = clientIdx_valid_after_ticks
      [where e = monitor_pool and k = example_constants and w = monitor_world and e' = ?x
         and w' = ?w', THEN conjunct2, THEN conjunct1, THEN mp, OF h2]
  from t2 [THEN conjunct1]
  have hi: "snd (highest [example_client ''seed-a'' 100 1001, example_client ''seed-b'' 106 1003]) = 1"
    by simp
  have nw: "unat (Height (greenfieldClients ?x ! nat (clientIdx monitor_pool)))
              + unat (FallBehindThreshold example_constants) < 2 ^ 64"
    by (simp add: m0 example_client_def example_constants_def)
  from t2 [THEN conjunct2, THEN conjunct2, THEN mp, OF nw]
  have past: "unat (100 :: uint64) + unat (FallBehindThreshold example_constants) < unat (106 :: uint64)"
    by (simp add: m0 example_client_def)
  show ?thesis by (intro conjI; fact ne example_construction t1 m0 monitor_tick_result hi past)
qed

end
